theory Spec2Isabelle
  imports Main "HOL-Library.Multiset"
begin

section \<open>Channel credentials of the native gRPC binding\<close>

text \<open>
  A shallow embedding of \<^verbatim>\<open>packages/grpc-native-core/ext/channel_credentials.cc\<close>.
  Every method of the class \<^verbatim>\<open>ChannelCredentials\<close> becomes a function that takes the
  state of the process and returns the completion of the call with the new state.
  A JavaScript exception is a value of the completion type; memory of the process
  (the native credentials of the security library, the \<^verbatim>\<open>Nan::Callback\<close> objects
  and the \<^verbatim>\<open>ChannelCredentials\<close> objects) is a list per kind of object, the
  address of an object being its index, so that a new object never has the address
  of an old one and a freed object is marked, not removed.
\<close>

subsection \<open>JavaScript values\<close>

type_synonym ptr = nat
type_synonym call_ptr = nat
type_synonym fn_id = nat

text \<open>
  The values a caller can pass. A function is named by an identifier, the wrapper object
  of a \<^verbatim>\<open>ChannelCredentials\<close> by the address of the C++ object it wraps
  (\<^verbatim>\<open>ObjectWrap\<close> ties the two one to one), an \<^verbatim>\<open>External\<close> by the pointer
  it carries (\<open>None\<close> is \<^verbatim>\<open>NULL\<close>), any other object by an identifier. The properties
  of a value are not part of the value: reading one is a computation of the program.
\<close>

datatype js_value =
    JSUndefined
  | JSNull
  | JSBoolean bool
  | JSNumber int
  | JSString string
  | JSBuffer string
  | JSFunction fn_id
  | JSNativeError string
  | JSObject nat
  | JSExternal "ptr option"
  | JSChannelCredentials nat
  | JSCallCredentials call_ptr

datatype js_error = TypeError string | Error string

text \<open>
  What JavaScript code does when native code runs it: it returns a value, it throws,
  or it never returns. This is how the call of a function ends, and how the read of a
  property ends, since a property can be an accessor. The functions of a program are
  given by an environment, the properties of its values by a heap. Calls that such
  code makes into the class are operations of the program in their own right.
\<close>

datatype js_outcome = Returned js_value | Threw js_value | Never_returns

type_synonym js_env = "fn_id \<Rightarrow> js_value list \<Rightarrow> js_outcome"

type_synonym js_heap = "js_value \<Rightarrow> string \<Rightarrow> js_outcome"

text \<open>
  How a method call ends: it sets a return value; it throws; it dereferences a
  wrapper whose C++ object is gone (which the garbage collector excludes: an object is
  deleted only when no JavaScript value refers to it); it ends the process, by a
  checked read of an empty handle; or it never returns.
\<close>

datatype completion = Returns js_value | Throws js_error | Dangling | Aborts | Hangs

fun IsNull :: "js_value \<Rightarrow> bool" where
  "IsNull JSNull = True"
| "IsNull _ = False"

fun IsUndefined :: "js_value \<Rightarrow> bool" where
  "IsUndefined JSUndefined = True"
| "IsUndefined _ = False"

fun IsExternal :: "js_value \<Rightarrow> bool" where
  "IsExternal (JSExternal _) = True"
| "IsExternal _ = False"

fun IsFunction :: "js_value \<Rightarrow> bool" where
  "IsFunction (JSFunction _) = True"
| "IsFunction _ = False"

fun IsNativeError :: "js_value \<Rightarrow> bool" where
  "IsNativeError (JSNativeError _) = True"
| "IsNativeError _ = False"

fun IsObject :: "js_value \<Rightarrow> bool" where
  "IsObject JSUndefined = False"
| "IsObject JSNull = False"
| "IsObject (JSBoolean _) = False"
| "IsObject (JSNumber _) = False"
| "IsObject (JSString _) = False"
| "IsObject _ = True"

fun Buffer_HasInstance :: "js_value \<Rightarrow> bool" where
  "Buffer_HasInstance (JSBuffer _) = True"
| "Buffer_HasInstance _ = False"

text \<open>\<^verbatim>\<open>info[i]\<close>: an argument the caller did not pass reads as \<^verbatim>\<open>undefined\<close>.\<close>

definition arg :: "js_value list \<Rightarrow> nat \<Rightarrow> js_value" where
  "arg info i = (if i < length info then info ! i else JSUndefined)"

text \<open>
  \<^verbatim>\<open>Nan::Get(object, key)\<close>: the read of a property of any object, as the heap has it.
  The handle that comes back is empty when the read throws.
\<close>

definition Get :: "js_heap \<Rightarrow> js_value \<Rightarrow> string \<Rightarrow> js_outcome" where
  "Get heap object key = heap object key"

text \<open>
  \<^verbatim>\<open>StringOrNull\<close> of \<^verbatim>\<open>util.h\<close> (not part of this file): the bytes of a Buffer
  once one was assigned, nothing before. \<^verbatim>\<open>isAssigned()\<close> tells the two apart.
  \<^verbatim>\<open>get()\<close> is \<^verbatim>\<open>NULL\<close> when nothing was assigned and a \<^verbatim>\<open>const char*\<close> to the
  bytes otherwise: whoever reads that pointer sees the bytes before the first zero byte.
\<close>

type_synonym StringOrNull = "string option"

fun assign :: "js_value \<Rightarrow> StringOrNull" where
  "assign (JSBuffer bytes) = Some bytes"
| "assign _ = None"

definition isAssigned :: "StringOrNull \<Rightarrow> bool" where
  "isAssigned s = (s \<noteq> None)"

definition c_str :: "string \<Rightarrow> string" where
  "c_str bytes = takeWhile (\<lambda>c. c \<noteq> CHR 0x00) bytes"

definition get :: "StringOrNull \<Rightarrow> string option" where
  "get s = map_option c_str s"

subsection \<open>The state of the process\<close>

datatype verify_fn = Verify_peer_callback_wrapper
datatype destruct_fn = Verify_peer_callback_destruct

text \<open>The struct \<^verbatim>\<open>verify_peer_options\<close> of \<^verbatim>\<open>grpc_security.h\<close>: two function pointers and the user data.\<close>

record verify_peer_options =
  verify_peer_callback :: "verify_fn option"
  verify_peer_callback_userdata :: "nat option"
  verify_peer_destruct :: "destruct_fn option"

record grpc_ssl_pem_key_cert_pair =
  private_key :: "string option"
  cert_chain :: "string option"

text \<open>
  Modelled from the spec: the native credential objects of the security library,
  which is not part of this repository's source file. A credential is built by the SSL
  builder (root certificates, key and certificate pair, verification registration) or
  by the composite builder (a channel credential and a call credential); it keeps the
  verification options it was built with and is live until it is released.
\<close>

datatype native_kind =
    Ssl_credentials "string option" "grpc_ssl_pem_key_cert_pair option"
  | Composite_credentials ptr call_ptr

record grpc_channel_credentials =
  kind :: native_kind
  options :: verify_peer_options
  released :: bool

text \<open>Every call the library receives, in order.\<close>

datatype lib_call =
    Ssl_credentials_create "string option" "grpc_ssl_pem_key_cert_pair option" verify_peer_options
  | Composite_channel_credentials_create ptr call_ptr
  | Channel_credentials_release "ptr option"

text \<open>A \<^verbatim>\<open>Nan::Callback\<close> made by \<^verbatim>\<open>new\<close>: the function it binds, and how often it was deleted.\<close>

record callback =
  fn :: fn_id
  deletes :: nat

text \<open>
  The class \<^verbatim>\<open>ChannelCredentials\<close>: its one field, and whether its destructor has run.
\<close>

record channel_credentials =
  wrapped_credentials :: "ptr option"
  destructed :: bool

record world =
  natives :: "grpc_channel_credentials list"
  callbacks :: "callback list"
  handles :: "channel_credentials list"
  lib_calls :: "lib_call list"
  fault :: bool

definition init :: world where
  "init = \<lparr>natives = [], callbacks = [], handles = [], lib_calls = [], fault = False\<rparr>"

text \<open>
  What the source cannot decide is a parameter: whether the library builds the credential
  it is asked for, and whether its release routine may be called on \<^verbatim>\<open>NULL\<close>.
\<close>

record library =
  ssl_create_succeeds ::
    "world \<Rightarrow> string option \<Rightarrow> grpc_ssl_pem_key_cert_pair option \<Rightarrow> verify_peer_options \<Rightarrow> bool"
  composite_create_succeeds :: "world \<Rightarrow> ptr \<Rightarrow> call_ptr \<Rightarrow> bool"
  release_accepts_null :: bool

subsection \<open>The registration of a verification function\<close>

text \<open>\<^verbatim>\<open>verify_peer_callback_destruct\<close>: \<^verbatim>\<open>delete callback\<close>, which does nothing on \<^verbatim>\<open>NULL\<close>.\<close>

definition verify_peer_callback_destruct :: "nat option \<Rightarrow> world \<Rightarrow> world" where
  "verify_peer_callback_destruct userdata w =
     (case userdata of
        None \<Rightarrow> w
      | Some u \<Rightarrow>
          if u < length (callbacks w)
          then w\<lparr>callbacks := (callbacks w)[u := (callbacks w ! u)\<lparr>deletes := Suc (deletes (callbacks w ! u))\<rparr>]\<rparr>
          else w\<lparr>fault := True\<rparr>)"

subsection \<open>The security library\<close>

definition no_verify_options :: verify_peer_options where
  "no_verify_options =
     \<lparr>verify_peer_callback = None, verify_peer_callback_userdata = None, verify_peer_destruct = None\<rparr>"

text \<open>
  Modelled from the spec: the SSL credential builder. It returns \<^verbatim>\<open>NULL\<close> when the
  library refuses, and the address of a new native credential otherwise.
\<close>

definition grpc_ssl_credentials_create ::
  "library \<Rightarrow> string option \<Rightarrow> grpc_ssl_pem_key_cert_pair option \<Rightarrow> verify_peer_options \<Rightarrow> world
     \<Rightarrow> ptr option \<times> world" where
  "grpc_ssl_credentials_create lib pem_root_certs pem_key_cert_pair verify_options w =
     (let w1 = w\<lparr>lib_calls := lib_calls w @ [Ssl_credentials_create pem_root_certs pem_key_cert_pair verify_options]\<rparr>
      in if ssl_create_succeeds lib w pem_root_certs pem_key_cert_pair verify_options
         then (Some (length (natives w)),
               w1\<lparr>natives := natives w @
                     [\<lparr>kind = Ssl_credentials pem_root_certs pem_key_cert_pair,
                       options = verify_options, released = False\<rparr>]\<rparr>)
         else (None, w1))"

text \<open>Modelled from the spec: the composite credential builder, on two native handles.\<close>

definition grpc_composite_channel_credentials_create ::
  "library \<Rightarrow> ptr \<Rightarrow> call_ptr \<Rightarrow> world \<Rightarrow> ptr option \<times> world" where
  "grpc_composite_channel_credentials_create lib channel_creds call_creds w =
     (let w1 = w\<lparr>lib_calls := lib_calls w @ [Composite_channel_credentials_create channel_creds call_creds]\<rparr>
      in if composite_create_succeeds lib w channel_creds call_creds
         then (Some (length (natives w)),
               w1\<lparr>natives := natives w @
                     [\<lparr>kind = Composite_credentials channel_creds call_creds,
                       options = no_verify_options, released = False\<rparr>]\<rparr>)
         else (None, w1))"

text \<open>
  Modelled from the spec: the release primitive. Releasing a live native credential
  destroys it, and its destruction hook releases the verification registration it was
  built with. Releasing \<^verbatim>\<open>NULL\<close> is harmless exactly when the library says so;
  releasing what is not a live credential is a fault.
\<close>

definition grpc_channel_credentials_release :: "library \<Rightarrow> ptr option \<Rightarrow> world \<Rightarrow> world" where
  "grpc_channel_credentials_release lib creds w =
     (let w1 = w\<lparr>lib_calls := lib_calls w @ [Channel_credentials_release creds]\<rparr>
      in case creds of
           None \<Rightarrow> if release_accepts_null lib then w1 else w1\<lparr>fault := True\<rparr>
         | Some p \<Rightarrow>
             if p < length (natives w) \<and> \<not> released (natives w ! p)
             then let c = natives w ! p;
                      w2 = w1\<lparr>natives := (natives w)[p := c\<lparr>released := True\<rparr>]\<rparr>
                  in (case verify_peer_destruct (options c) of
                        None \<Rightarrow> w2
                      | Some Verify_peer_callback_destruct \<Rightarrow>
                          verify_peer_callback_destruct (verify_peer_callback_userdata (options c)) w2)
             else w1\<lparr>fault := True\<rparr>)"

subsection \<open>The class ChannelCredentials\<close>

definition ChannelCredentials_HasInstance :: "js_value \<Rightarrow> bool" where
  "ChannelCredentials_HasInstance val = (case val of JSChannelCredentials _ \<Rightarrow> True | _ \<Rightarrow> False)"

text \<open>
  \<^verbatim>\<open>CallCredentials\<close> of \<^verbatim>\<open>call_credentials.h\<close> (not part of this file), as far as it
  is used: the instance test, and the native call credential an instance yields.
\<close>

definition CallCredentials_HasInstance :: "js_value \<Rightarrow> bool" where
  "CallCredentials_HasInstance val = (case val of JSCallCredentials _ \<Rightarrow> True | _ \<Rightarrow> False)"

fun GetWrappedCredentials :: "js_value \<Rightarrow> call_ptr" where
  "GetWrappedCredentials (JSCallCredentials c) = c"
| "GetWrappedCredentials _ = 0"

text \<open>\<^verbatim>\<open>ObjectWrap::Unwrap\<close>: the live C++ object behind a wrapper object, if there is one.\<close>

fun Unwrap :: "world \<Rightarrow> js_value \<Rightarrow> channel_credentials option" where
  "Unwrap w (JSChannelCredentials h) =
     (if h < length (handles w) \<and> \<not> destructed (handles w ! h) then Some (handles w ! h) else None)"
| "Unwrap w _ = None"

text \<open>
  The constructor and the destructor. \<^verbatim>\<open>New\<close> is the JavaScript constructor: the new
  C++ object is wrapped by \<^verbatim>\<open>info.This()\<close>, which is the value returned.
\<close>

definition only_provided :: string where
  "only_provided = ''ChannelCredentials can only be created with the provided functions''"

definition New :: "world \<Rightarrow> bool \<Rightarrow> js_value list \<Rightarrow> completion \<times> world" where
  "New w IsConstructCall info =
     (if IsConstructCall
      then (case arg info 0 of
              JSExternal creds_value \<Rightarrow>
                (Returns (JSChannelCredentials (length (handles w))),
                 w\<lparr>handles := handles w @ [\<lparr>wrapped_credentials = creds_value, destructed = False\<rparr>]\<rparr>)
            | _ \<Rightarrow> (Throws (TypeError only_provided), w))
      else (Throws (TypeError only_provided), w))"

definition ChannelCredentials_destructor :: "library \<Rightarrow> channel_credentials \<Rightarrow> world \<Rightarrow> world" where
  "ChannelCredentials_destructor lib self w =
     grpc_channel_credentials_release lib (wrapped_credentials self) w"

text \<open>
  \<^verbatim>\<open>WrapStruct\<close> calls the constructor on an \<^verbatim>\<open>External\<close> holding the pointer and
  returns \<^verbatim>\<open>null\<close> if no instance comes back.
\<close>

definition WrapStruct :: "world \<Rightarrow> ptr option \<Rightarrow> js_value \<times> world" where
  "WrapStruct w credentials =
     (case New w True [JSExternal credentials] of
        (Returns instance, w') \<Rightarrow> (instance, w')
      | (_, w') \<Rightarrow> (JSNull, w'))"

definition CreateInsecure :: "world \<Rightarrow> completion \<times> world" where
  "CreateInsecure w = (case WrapStruct w None of (v, w') \<Rightarrow> (Returns v, w'))"

definition Compose :: "library \<Rightarrow> world \<Rightarrow> js_value \<Rightarrow> js_value list \<Rightarrow> completion \<times> world" where
  "Compose lib w this info =
     (if \<not> ChannelCredentials_HasInstance this
      then (Throws (TypeError ''compose can only be called on ChannelCredentials objects''), w)
      else if \<not> CallCredentials_HasInstance (arg info 0)
      then (Throws (TypeError ''compose's first argument must be a CallCredentials object''), w)
      else (case Unwrap w this of
              None \<Rightarrow> (Dangling, w)
            | Some self \<Rightarrow>
                (case wrapped_credentials self of
                   None \<Rightarrow> (Throws (TypeError ''Cannot compose insecure credential''), w)
                 | Some p \<Rightarrow>
                     (case grpc_composite_channel_credentials_create lib p
                             (GetWrappedCredentials (arg info 0)) w of
                        (None, w1) \<Rightarrow> (Returns JSNull, w1)
                      | (Some creds, w1) \<Rightarrow>
                          (case WrapStruct w1 (Some creds) of (v, w2) \<Rightarrow> (Returns v, w2))))))"

text \<open>
  The fourth argument of \<^verbatim>\<open>createSsl\<close> (lines 192 to 211 of the source): the options
  start empty; a function under \<^verbatim>\<open>checkServerIdentity\<close> is bound by a new
  \<^verbatim>\<open>Nan::Callback\<close>, which becomes the user data of the wrapper and of the destruct
  routine. The property is read with \<^verbatim>\<open>ToLocalChecked\<close>: a read that throws ends the
  process.
\<close>

definition CreateSsl_verify_options ::
  "js_heap \<Rightarrow> world \<Rightarrow> js_value \<Rightarrow> completion + verify_peer_options \<times> world" where
  "CreateSsl_verify_options heap w info3 =
     (if \<not> IsUndefined info3
      then (if \<not> IsObject info3
            then Inl (Throws (TypeError ''createSsl's fourth argument must be an object''))
            else (case Get heap info3 ''checkServerIdentity'' of
                    Never_returns \<Rightarrow> Inl Hangs
                  | Threw x \<Rightarrow> Inl Aborts
                  | Returned checkServerIdentityValue \<Rightarrow>
                      if \<not> IsUndefined checkServerIdentityValue
                      then (case checkServerIdentityValue of
                              JSFunction f \<Rightarrow>
                                Inr (\<lparr>verify_peer_callback = Some Verify_peer_callback_wrapper,
                                      verify_peer_callback_userdata = Some (length (callbacks w)),
                                      verify_peer_destruct = Some Verify_peer_callback_destruct\<rparr>,
                                     w\<lparr>callbacks := callbacks w @ [\<lparr>fn = f, deletes = 0\<rparr>]\<rparr>)
                            | _ \<Rightarrow> Inl (Throws (TypeError ''Value of checkServerIdentity must be a function.'')))
                      else Inr (no_verify_options, w)))
      else Inr (no_verify_options, w))"

definition nullish :: "js_value \<Rightarrow> bool" where
  "nullish v = (IsNull v \<or> IsUndefined v)"

definition CreateSsl :: "js_heap \<Rightarrow> library \<Rightarrow> world \<Rightarrow> js_value list \<Rightarrow> completion \<times> world" where
  "CreateSsl heap lib w info =
     (if \<not> Buffer_HasInstance (arg info 0) \<and> \<not> nullish (arg info 0)
      then (Throws (TypeError ''createSsl's first argument must be a Buffer''), w)
      else if \<not> Buffer_HasInstance (arg info 1) \<and> \<not> nullish (arg info 1)
      then (Throws (TypeError ''createSSl's second argument must be a Buffer if provided''), w)
      else if \<not> Buffer_HasInstance (arg info 2) \<and> \<not> nullish (arg info 2)
      then (Throws (TypeError ''createSSl's third argument must be a Buffer if provided''), w)
      else (let root_certs = assign (arg info 0);
                private_key = assign (arg info 1);
                cert_chain = assign (arg info 2);
                key_cert_pair = \<lparr>private_key = get private_key, cert_chain = get cert_chain\<rparr>
            in if isAssigned private_key \<noteq> isAssigned cert_chain
               then (Throws (Error ''createSsl's second and third arguments must be provided or omitted together''), w)
               else (case CreateSsl_verify_options heap w (arg info 3) of
                       Inl stop \<Rightarrow> (stop, w)
                     | Inr (verify_options, w1) \<Rightarrow>
                         (case grpc_ssl_credentials_create lib (get root_certs)
                                 (if isAssigned private_key then Some key_cert_pair else None)
                                 verify_options w1 of
                            (None, w2) \<Rightarrow> (Returns JSNull, w2)
                          | (Some creds, w2) \<Rightarrow>
                              (case WrapStruct w2 (Some creds) of (v, w3) \<Rightarrow> (Returns v, w3))))))"

subsection \<open>The peer-verification bridge\<close>

text \<open>
  What the native caller of the bridge sees: a signal, no return at all, or the end of
  the process (a checked read of an empty result, or user data that is not a live callback).
\<close>

datatype bridge_result = Signal int | Stalled | Aborted

text \<open>
  \<^verbatim>\<open>Nan::Call\<close>: the result is empty when the function throws, and the exception is then
  pending, where the enclosing \<^verbatim>\<open>Nan::TryCatch\<close> sees it.
\<close>

definition Nan_Call ::
  "js_env \<Rightarrow> callback \<Rightarrow> js_value list \<Rightarrow> (js_value option \<times> js_value option) option" where
  "Nan_Call env cb argv =
     (case env (fn cb) argv of
        Returned v \<Rightarrow> Some (Some v, None)
      | Threw x \<Rightarrow> Some (None, Some x)
      | Never_returns \<Rightarrow> None)"

text \<open>
  Leaving the scope of a \<^verbatim>\<open>Nan::TryCatch\<close>: the exception it caught goes on to the caller
  only if it was rethrown.
\<close>

definition TryCatch_leave :: "js_value option \<Rightarrow> bool \<Rightarrow> js_value option" where
  "TryCatch_leave caught rethrown = (if rethrown then caught else None)"

definition string_or_null :: "string option \<Rightarrow> js_value" where
  "string_or_null s = (case s of None \<Rightarrow> JSNull | Some chars \<Rightarrow> JSString chars)"

text \<open>
  \<^verbatim>\<open>verify_peer_callback_wrapper\<close>: the signal for the native layer, and the exception
  that leaves the bridge with it. The source never rethrows.
\<close>

definition verify_peer_callback_wrapper ::
  "js_env \<Rightarrow> world \<Rightarrow> string option \<Rightarrow> string option \<Rightarrow> nat \<Rightarrow> bridge_result \<times> js_value option" where
  "verify_peer_callback_wrapper env w servername cert userdata =
     (if userdata < length (callbacks w) \<and> deletes (callbacks w ! userdata) = 0
      then (let callback = callbacks w ! userdata;
                argv = [string_or_null servername, string_or_null cert]
            in case Nan_Call env callback argv of
                 None \<Rightarrow> (Stalled, None)
               | Some (result, caught) \<Rightarrow>
                   if caught \<noteq> None then (Signal 2, TryCatch_leave caught False)
                   else (case result of
                           Some v \<Rightarrow>
                             if IsNativeError v then (Signal 1, TryCatch_leave caught False)
                             else (Signal 0, TryCatch_leave caught False)
                         | None \<Rightarrow> (Aborted, None)))
      else (Aborted, None))"

text \<open>
  Modelled from the spec: during a handshake the native layer calls the verification
  callback a live credential was built with, on the user data it was built with, once
  per peer certificate. There is nothing to call when no callback was installed.
\<close>

definition native_verify_peer ::
  "js_env \<Rightarrow> world \<Rightarrow> ptr \<Rightarrow> string option \<Rightarrow> string option \<Rightarrow> (bridge_result \<times> js_value option) option" where
  "native_verify_peer env w p servername cert =
     (if p < length (natives w) \<and> \<not> released (natives w ! p)
      then (case (verify_peer_callback (options (natives w ! p)),
                  verify_peer_callback_userdata (options (natives w ! p))) of
              (Some Verify_peer_callback_wrapper, Some u) \<Rightarrow>
                 Some (verify_peer_callback_wrapper env w servername cert u)
            | _ \<Rightarrow> None)
      else None)"

subsection \<open>Programs\<close>

text \<open>
  What a program can do with the class: call its static and prototype methods and its
  constructor, and drop the last reference to a wrapper object, after which the
  garbage collector deletes the C++ object behind it. An object is deleted once:
  deleting runs the destructor and ends the object's life. A call that throws, ends
  the process or never returns leaves the state as it was.
\<close>

datatype operation =
    Call_CreateInsecure
  | Call_CreateSsl "js_value list"
  | Call_Compose js_value "js_value list"
  | Call_New bool "js_value list"
  | Collect nat

definition delete_handle :: "library \<Rightarrow> nat \<Rightarrow> world \<Rightarrow> world" where
  "delete_handle lib h w =
     (if h < length (handles w) \<and> \<not> destructed (handles w ! h)
      then ChannelCredentials_destructor lib (handles w ! h)
             (w\<lparr>handles := (handles w)[h := (handles w ! h)\<lparr>destructed := True\<rparr>]\<rparr>)
      else w)"

fun step :: "js_heap \<Rightarrow> library \<Rightarrow> world \<Rightarrow> operation \<Rightarrow> world" where
  "step heap lib w Call_CreateInsecure = snd (CreateInsecure w)"
| "step heap lib w (Call_CreateSsl info) = snd (CreateSsl heap lib w info)"
| "step heap lib w (Call_Compose this info) = snd (Compose lib w this info)"
| "step heap lib w (Call_New IsConstructCall info) = snd (New w IsConstructCall info)"
| "step heap lib w (Collect h) = delete_handle lib h w"

definition run :: "js_heap \<Rightarrow> library \<Rightarrow> operation list \<Rightarrow> world \<Rightarrow> world" where
  "run heap lib ops w = foldl (step heap lib) w ops"

text \<open>
  JavaScript code has no way to make an \<^verbatim>\<open>External\<close>, so the constructor calls of a
  program never pass one.
\<close>

fun script_operation :: "operation \<Rightarrow> bool" where
  "script_operation (Call_New IsConstructCall info) = (\<not> IsExternal (arg info 0))"
| "script_operation _ = True"

text \<open>The pointers that were passed to the release primitive, in order.\<close>

fun release_args :: "lib_call list \<Rightarrow> ptr option list" where
  "release_args [] = []"
| "release_args (Channel_credentials_release p # cs) = p # release_args cs"
| "release_args (_ # cs) = release_args cs"

text \<open>An argument is supplied when it is neither \<^verbatim>\<open>null\<close> nor \<^verbatim>\<open>undefined\<close>.\<close>

definition supplied :: "js_value \<Rightarrow> bool" where
  "supplied v = (\<not> nullish v)"

text \<open>A library that builds whatever it is asked for and accepts \<^verbatim>\<open>NULL\<close> for release.\<close>

definition willing_library :: library where
  "willing_library =
     \<lparr>ssl_create_succeeds = (\<lambda>w roots pair opts. True),
      composite_create_succeeds = (\<lambda>w p c. True),
      release_accepts_null = True\<rparr>"

text \<open>A library that builds nothing.\<close>

definition refusing_library :: library where
  "refusing_library =
     \<lparr>ssl_create_succeeds = (\<lambda>w roots pair opts. False),
      composite_create_succeeds = (\<lambda>w p c. False),
      release_accepts_null = True\<rparr>"


text \<open>
  The registration a native credential was built with, and the link between the two:
  a credential either has no verification options or the three the source installs
  together, on a callback that exists and has been deleted once if the credential was
  released and never otherwise; no two credentials share a callback; a callback no
  credential owns has never been deleted.
\<close>

definition registration :: "world \<Rightarrow> ptr \<Rightarrow> nat option" where
  "registration w p = verify_peer_callback_userdata (options (natives w ! p))"

definition registrations_anchored :: "world \<Rightarrow> bool" where
  "registrations_anchored w =
     ((\<forall>p < length (natives w).
         options (natives w ! p) = no_verify_options \<or>
         (\<exists>u < length (callbacks w).
            options (natives w ! p) =
              \<lparr>verify_peer_callback = Some Verify_peer_callback_wrapper,
               verify_peer_callback_userdata = Some u,
               verify_peer_destruct = Some Verify_peer_callback_destruct\<rparr> \<and>
            deletes (callbacks w ! u) = (if released (natives w ! p) then 1 else 0))) \<and>
      (\<forall>p < length (natives w). \<forall>q < length (natives w).
         registration w p = registration w q \<and> registration w p \<noteq> None \<longrightarrow> p = q) \<and>
      (\<forall>u < length (callbacks w).
         (\<forall>p < length (natives w). registration w p \<noteq> Some u) \<longrightarrow> deletes (callbacks w ! u) = 0))"

text \<open>
  Exclusive ownership: a handle that wraps a native credential wraps one that exists
  and that has been released if and only if the handle has been destructed; no two
  handles wrap the same native credential; every native credential is wrapped by a
  handle.
\<close>

definition handles_own :: "world \<Rightarrow> bool" where
  "handles_own w =
     ((\<forall>h < length (handles w). \<forall>p. wrapped_credentials (handles w ! h) = Some p \<longrightarrow>
          p < length (natives w) \<and> released (natives w ! p) = destructed (handles w ! h)) \<and>
      (\<forall>h < length (handles w). \<forall>h' < length (handles w).
          wrapped_credentials (handles w ! h) = wrapped_credentials (handles w ! h') \<and>
          wrapped_credentials (handles w ! h) \<noteq> None \<longrightarrow> h = h') \<and>
      (\<forall>p < length (natives w). \<exists>h < length (handles w).
          wrapped_credentials (handles w ! h) = Some p))"

text \<open>
  The three options \<^verbatim>\<open>createSsl\<close> installs for the callback at an address, and the
  key and certificate pair it passes to the library (lines 184, 185 and 214 of the source).
\<close>

definition installed_options :: "nat \<Rightarrow> verify_peer_options" where
  "installed_options u =
     \<lparr>verify_peer_callback = Some Verify_peer_callback_wrapper,
      verify_peer_callback_userdata = Some u,
      verify_peer_destruct = Some Verify_peer_callback_destruct\<rparr>"

definition key_cert_argument :: "js_value list \<Rightarrow> grpc_ssl_pem_key_cert_pair option" where
  "key_cert_argument info =
     (if isAssigned (assign (arg info 1))
      then Some \<lparr>private_key = get (assign (arg info 1)), cert_chain = get (assign (arg info 2))\<rparr>
      else None)"

text \<open>
  The validation of the arguments, as conditions on them. The first three are Buffers
  or absent, and the key and the chain come together or not at all (lines 167 to 190);
  the fourth is undefined, or an object whose \<^verbatim>\<open>checkServerIdentity\<close> reads as
  undefined or as a function (lines 193 to 204).
\<close>

definition key_cert_valid :: "js_value list \<Rightarrow> bool" where
  "key_cert_valid info =
     ((Buffer_HasInstance (arg info 0) \<or> nullish (arg info 0)) \<and>
      (Buffer_HasInstance (arg info 1) \<or> nullish (arg info 1)) \<and>
      (Buffer_HasInstance (arg info 2) \<or> nullish (arg info 2)) \<and>
      supplied (arg info 1) = supplied (arg info 2))"

fun returns_function :: "js_outcome \<Rightarrow> bool" where
  "returns_function (Returned (JSFunction _)) = True"
| "returns_function _ = False"

definition options_valid :: "js_heap \<Rightarrow> js_value \<Rightarrow> bool" where
  "options_valid heap v =
     (IsUndefined v \<or>
      (IsObject v \<and>
       (heap v ''checkServerIdentity'' = Returned JSUndefined \<or>
        returns_function (heap v ''checkServerIdentity''))))"

text \<open>
  Two heaps: one where no value has a property, and one where the object 1 has the
  function 5 under \<^verbatim>\<open>checkServerIdentity\<close>.
\<close>

definition plain_heap :: js_heap where
  "plain_heap object key = Returned JSUndefined"

definition verifier_heap :: js_heap where
  "verifier_heap object key =
     (if object = JSObject 1 \<and> key = ''checkServerIdentity''
      then Returned (JSFunction 5) else Returned JSUndefined)"

text \<open>A library that builds what it is asked for and does not accept \<^verbatim>\<open>NULL\<close> for release.\<close>

definition strict_library :: library where
  "strict_library =
     \<lparr>ssl_create_succeeds = (\<lambda>w roots pair opts. True),
      composite_create_succeeds = (\<lambda>w p c. True),
      release_accepts_null = False\<rparr>"

text \<open>A call that sets a return value, as opposed to one that stops on the way.\<close>

fun completes :: "completion \<Rightarrow> bool" where
  "completes (Returns _) = True"
| "completes _ = False"

section \<open>Properties\<close>

subsection \<open>How the calls end\<close>

lemma WrapStruct_eq:
  "WrapStruct w credentials =
     (JSChannelCredentials (length (handles w)),
      w\<lparr>handles := handles w @ [\<lparr>wrapped_credentials = credentials, destructed = False\<rparr>]\<rparr>)"
  by (simp add: WrapStruct_def New_def arg_def)

lemma CreateInsecure_eq:
  "CreateInsecure w =
     (Returns (JSChannelCredentials (length (handles w))),
      w\<lparr>handles := handles w @ [\<lparr>wrapped_credentials = None, destructed = False\<rparr>]\<rparr>)"
  by (simp add: CreateInsecure_def WrapStruct_eq)

lemma isAssigned_assign: "isAssigned (assign v) = Buffer_HasInstance v"
  by (cases v) (simp_all add: isAssigned_def)

lemma Buffer_supplied: "Buffer_HasInstance v \<Longrightarrow> supplied v"
  by (cases v) (simp_all add: supplied_def nullish_def)

lemma Unwrap_HasInstance: "Unwrap w this = Some self \<Longrightarrow> ChannelCredentials_HasInstance this"
  by (cases this) (simp_all add: ChannelCredentials_HasInstance_def)

lemma IsUndefined_iff: "IsUndefined v = (v = JSUndefined)"
  by (cases v) simp_all

lemma verify_options_cases:
  assumes "CreateSsl_verify_options heap w v = Inr (vo, w1)"
  shows "(vo = no_verify_options \<and> w1 = w \<and>
          (IsUndefined v \<or>
           IsObject v \<and> heap v ''checkServerIdentity'' = Returned JSUndefined)) \<or>
         (\<exists>f. heap v ''checkServerIdentity'' = Returned (JSFunction f) \<and>
              \<not> IsUndefined v \<and> IsObject v \<and>
              vo = \<lparr>verify_peer_callback = Some Verify_peer_callback_wrapper,
                    verify_peer_callback_userdata = Some (length (callbacks w)),
                    verify_peer_destruct = Some Verify_peer_callback_destruct\<rparr> \<and>
              w1 = w\<lparr>callbacks := callbacks w @ [\<lparr>fn = f, deletes = 0\<rparr>]\<rparr>)"
  using assms
  by (auto simp: CreateSsl_verify_options_def Get_def IsUndefined_iff
        split: if_splits js_outcome.splits js_value.splits)

lemma verify_options_frame:
  assumes "CreateSsl_verify_options heap w v = Inr (vo, w1)"
  shows "natives w1 = natives w" "handles w1 = handles w" "lib_calls w1 = lib_calls w"
    "fault w1 = fault w"
  using verify_options_cases [OF assms] by auto

lemma verify_options_only_callbacks:
  assumes "CreateSsl_verify_options heap w v = Inr (vo, w1)"
  shows "w1 = w\<lparr>callbacks := callbacks w1\<rparr>"
  using verify_options_cases [OF assms] by auto

lemma verify_options_stop:
  assumes "CreateSsl_verify_options heap w v = Inl stop"
  shows "\<not> completes stop" and "\<not> options_valid heap v"
  using assms
  by (auto simp: CreateSsl_verify_options_def Get_def options_valid_def IsUndefined_iff
        split: if_splits js_outcome.splits js_value.splits)

lemma verify_options_valid:
  assumes "options_valid heap v"
  shows "\<exists>vo w1. CreateSsl_verify_options heap w v = Inr (vo, w1)"
  using assms verify_options_stop(2) [of heap w v]
  by (cases "CreateSsl_verify_options heap w v") auto

lemma key_cert_valid_assigned:
  assumes "key_cert_valid info"
  shows "isAssigned (assign (arg info 1)) = isAssigned (assign (arg info 2))"
proof -
  have s: "supplied v = Buffer_HasInstance v" if "Buffer_HasInstance v \<or> nullish v" for v
    using that by (cases v) (simp_all add: supplied_def nullish_def)
  from assms have "supplied (arg info 1) = supplied (arg info 2)"
    and 1: "Buffer_HasInstance (arg info 1) \<or> nullish (arg info 1)"
    and 2: "Buffer_HasInstance (arg info 2) \<or> nullish (arg info 2)"
    by (simp_all add: key_cert_valid_def)
  then show ?thesis unfolding s [OF 1] s [OF 2] by (simp add: isAssigned_assign)
qed

text \<open>Arguments that fail the first checks: the call throws and nothing has happened.\<close>

lemma CreateSsl_invalid:
  assumes "\<not> key_cert_valid info"
  shows "\<exists>e. CreateSsl heap lib w info = (Throws e, w)"
proof -
  have "supplied v = Buffer_HasInstance v" if "Buffer_HasInstance v \<or> nullish v" for v
    using that by (cases v) (simp_all add: supplied_def nullish_def)
  with assms show ?thesis
    by (auto simp: CreateSsl_def Let_def key_cert_valid_def isAssigned_assign)
qed

text \<open>Arguments that pass them: what the fourth argument and the library make of the call.\<close>

lemma CreateSsl_valid:
  assumes "key_cert_valid info"
  shows "CreateSsl heap lib w info =
     (case CreateSsl_verify_options heap w (arg info 3) of
        Inl stop \<Rightarrow> (stop, w)
      | Inr (vo, w1) \<Rightarrow>
          if ssl_create_succeeds lib w1 (get (assign (arg info 0))) (key_cert_argument info) vo
          then (Returns (JSChannelCredentials (length (handles w))),
                w1\<lparr>lib_calls := lib_calls w @
                     [Ssl_credentials_create (get (assign (arg info 0))) (key_cert_argument info) vo],
                   natives := natives w @
                     [\<lparr>kind = Ssl_credentials (get (assign (arg info 0))) (key_cert_argument info),
                       options = vo, released = False\<rparr>],
                   handles := handles w @
                     [\<lparr>wrapped_credentials = Some (length (natives w)), destructed = False\<rparr>]\<rparr>)
          else (Returns JSNull,
                w1\<lparr>lib_calls := lib_calls w @
                     [Ssl_credentials_create (get (assign (arg info 0))) (key_cert_argument info) vo]\<rparr>))"
proof (cases "CreateSsl_verify_options heap w (arg info 3)")
  case (Inl stop)
  with assms key_cert_valid_assigned [OF assms] show ?thesis
    by (auto simp: CreateSsl_def Let_def key_cert_valid_def)
next
  case (Inr r)
  obtain vo w1 where r: "r = (vo, w1)" by (cases r)
  note fr = verify_options_frame [OF Inr [unfolded r]]
  from assms key_cert_valid_assigned [OF assms] Inr r fr show ?thesis
    by (auto simp: CreateSsl_def Let_def key_cert_valid_def key_cert_argument_def
          grpc_ssl_credentials_create_def WrapStruct_eq)
qed

text \<open>The three ways a call of createSsl ends.\<close>

lemma CreateSsl_cases:
  obtains (Stops) stop where "\<not> completes stop" "CreateSsl heap lib w info = (stop, w)"
  | (Refused) vo w1 where
      "CreateSsl_verify_options heap w (arg info 3) = Inr (vo, w1)"
      "\<not> ssl_create_succeeds lib w1 (get (assign (arg info 0))) (key_cert_argument info) vo"
      "CreateSsl heap lib w info =
         (Returns JSNull,
          w1\<lparr>lib_calls := lib_calls w @
               [Ssl_credentials_create (get (assign (arg info 0))) (key_cert_argument info) vo]\<rparr>)"
  | (Built) vo w1 where
      "CreateSsl_verify_options heap w (arg info 3) = Inr (vo, w1)"
      "ssl_create_succeeds lib w1 (get (assign (arg info 0))) (key_cert_argument info) vo"
      "CreateSsl heap lib w info =
         (Returns (JSChannelCredentials (length (handles w))),
          w1\<lparr>lib_calls := lib_calls w @
               [Ssl_credentials_create (get (assign (arg info 0))) (key_cert_argument info) vo],
             natives := natives w @
               [\<lparr>kind = Ssl_credentials (get (assign (arg info 0))) (key_cert_argument info),
                 options = vo, released = False\<rparr>],
             handles := handles w @
               [\<lparr>wrapped_credentials = Some (length (natives w)), destructed = False\<rparr>]\<rparr>)"
proof (cases "key_cert_valid info")
  case False
  from CreateSsl_invalid [OF this, of heap lib w] obtain e
    where "CreateSsl heap lib w info = (Throws e, w)" by blast
  with Stops [of "Throws e"] show ?thesis by simp
next
  case True
  note eq = CreateSsl_valid [OF True, of heap lib w]
  show ?thesis
  proof (cases "CreateSsl_verify_options heap w (arg info 3)")
    case (Inl stop)
    with eq verify_options_stop(1) [OF Inl] Stops [of stop] show ?thesis by simp
  next
    case (Inr r)
    obtain vo w1 where r: "r = (vo, w1)" by (cases r)
    show ?thesis
    proof (cases "ssl_create_succeeds lib w1 (get (assign (arg info 0))) (key_cert_argument info) vo")
      case True
      with eq Inr r Built [of vo w1] show ?thesis by simp
    next
      case False
      with eq Inr r Refused [of vo w1] show ?thesis by simp
    qed
  qed
qed

lemma Compose_cases:
  obtains (Throw) e where "Compose lib w this info = (Throws e, w)"
  | (Dangle) "Compose lib w this info = (Dangling, w)" "Unwrap w this = None"
  | (Refused) self p where
      "Unwrap w this = Some self" "wrapped_credentials self = Some p"
      "CallCredentials_HasInstance (arg info 0)"
      "\<not> composite_create_succeeds lib w p (GetWrappedCredentials (arg info 0))"
      "Compose lib w this info =
         (Returns JSNull,
          w\<lparr>lib_calls := lib_calls w @
               [Composite_channel_credentials_create p (GetWrappedCredentials (arg info 0))]\<rparr>)"
  | (Built) self p where
      "Unwrap w this = Some self" "wrapped_credentials self = Some p"
      "CallCredentials_HasInstance (arg info 0)"
      "composite_create_succeeds lib w p (GetWrappedCredentials (arg info 0))"
      "Compose lib w this info =
         (Returns (JSChannelCredentials (length (handles w))),
          w\<lparr>lib_calls := lib_calls w @
               [Composite_channel_credentials_create p (GetWrappedCredentials (arg info 0))],
            natives := natives w @
               [\<lparr>kind = Composite_credentials p (GetWrappedCredentials (arg info 0)),
                 options = no_verify_options, released = False\<rparr>],
            handles := handles w @
               [\<lparr>wrapped_credentials = Some (length (natives w)), destructed = False\<rparr>]\<rparr>)"
proof (cases "ChannelCredentials_HasInstance this \<and> CallCredentials_HasInstance (arg info 0)")
  case False
  then have "\<exists>e. Compose lib w this info = (Throws e, w)" by (auto simp: Compose_def)
  then show ?thesis using Throw by blast
next
  case ok: True
  show ?thesis
  proof (cases "Unwrap w this")
    case None
    with ok show ?thesis by (intro Dangle) (auto simp: Compose_def)
  next
    case (Some self)
    show ?thesis
    proof (cases "wrapped_credentials self")
      case None
      with ok Some have "\<exists>e. Compose lib w this info = (Throws e, w)" by (auto simp: Compose_def)
      then show ?thesis using Throw by blast
    next
      case p: (Some p)
      show ?thesis
      proof (cases "composite_create_succeeds lib w p (GetWrappedCredentials (arg info 0))")
        case True
        with ok Some p show ?thesis
          by (intro Built [of self p])
             (auto simp: Compose_def grpc_composite_channel_credentials_create_def Let_def WrapStruct_eq)
      next
        case False
        with ok Some p show ?thesis
          by (intro Refused [of self p])
             (auto simp: Compose_def grpc_composite_channel_credentials_create_def Let_def)
      qed
    qed
  qed
qed

subsection \<open>Releases follow destruction\<close>

lemma release_args_append: "release_args (xs @ ys) = release_args xs @ release_args ys"
  by (induction xs rule: release_args.induct) simp_all

lemma destruct_frame:
  "handles (verify_peer_callback_destruct u w) = handles w"
  "natives (verify_peer_callback_destruct u w) = natives w"
  "lib_calls (verify_peer_callback_destruct u w) = lib_calls w"
  by (simp_all add: verify_peer_callback_destruct_def split: option.splits)

lemma release_frame:
  "handles (grpc_channel_credentials_release lib p w) = handles w"
  "lib_calls (grpc_channel_credentials_release lib p w) = lib_calls w @ [Channel_credentials_release p]"
  by (simp_all add: grpc_channel_credentials_release_def Let_def destruct_frame
        split: option.splits destruct_fn.splits)

lemma delete_handle_live:
  assumes "h < length (handles w)" and "\<not> destructed (handles w ! h)"
  shows "handles (delete_handle lib h w) = (handles w)[h := (handles w ! h)\<lparr>destructed := True\<rparr>]"
    and "lib_calls (delete_handle lib h w) =
           lib_calls w @ [Channel_credentials_release (wrapped_credentials (handles w ! h))]"
  using assms by (simp_all add: delete_handle_def ChannelCredentials_destructor_def release_frame)

lemma delete_handle_dead:
  "\<not> (h < length (handles w) \<and> \<not> destructed (handles w ! h)) \<Longrightarrow> delete_handle lib h w = w"
  by (auto simp: delete_handle_def)

text \<open>What one operation does to the handles and to the releases.\<close>

lemma step_handles:
  "(handles (step heap lib w op) = handles w \<and>
      release_args (lib_calls (step heap lib w op)) = release_args (lib_calls w)) \<or>
   (\<exists>c. handles (step heap lib w op) = handles w @ [c] \<and> \<not> destructed c \<and>
      release_args (lib_calls (step heap lib w op)) = release_args (lib_calls w)) \<or>
   (\<exists>h. h < length (handles w) \<and> \<not> destructed (handles w ! h) \<and>
      handles (step heap lib w op) = (handles w)[h := (handles w ! h)\<lparr>destructed := True\<rparr>] \<and>
      release_args (lib_calls (step heap lib w op)) =
        release_args (lib_calls w) @ [wrapped_credentials (handles w ! h)])"
proof (cases op)
  case Call_CreateInsecure
  then show ?thesis by (simp add: CreateInsecure_eq)
next
  case (Call_CreateSsl info)
  show ?thesis
  proof (cases rule: CreateSsl_cases [of heap lib w info])
    case (Stops stop)
    with Call_CreateSsl show ?thesis by simp
  next
    case (Refused vo w1)
    with Call_CreateSsl verify_options_frame [OF Refused(1)] show ?thesis
      by (simp add: release_args_append)
  next
    case (Built vo w1)
    with Call_CreateSsl verify_options_frame [OF Built(1)] show ?thesis
      by (simp add: release_args_append)
  qed
next
  case (Call_Compose this info)
  show ?thesis
    by (cases rule: Compose_cases [of lib w this info])
       (simp_all add: Call_Compose release_args_append)
next
  case (Call_New c info)
  then show ?thesis by (cases "arg info 0") (simp_all add: New_def)
next
  case (Collect h)
  show ?thesis
  proof (cases "h < length (handles w) \<and> \<not> destructed (handles w ! h)")
    case True
    then show ?thesis
      using delete_handle_live [of h w lib]
      by (auto simp: Collect release_args_append)
  next
    case False
    then show ?thesis by (simp add: Collect delete_handle_dead)
  qed
qed

lemma run_snoc: "run heap lib (ops @ [op]) w = step heap lib (run heap lib ops w) op"
  by (simp add: run_def)

lemma run_Nil: "run heap lib [] w = w"
  by (simp add: run_def)




subsection \<open>Registrations are anchored to their credentials\<close>

lemma release_null:
  "grpc_channel_credentials_release lib None w =
     w\<lparr>lib_calls := lib_calls w @ [Channel_credentials_release None],
       fault := fault w \<or> \<not> release_accepts_null lib\<rparr>"
  by (simp add: grpc_channel_credentials_release_def Let_def)

lemma release_stale:
  "\<not> (p < length (natives w) \<and> \<not> released (natives w ! p)) \<Longrightarrow>
   grpc_channel_credentials_release lib (Some p) w =
     w\<lparr>lib_calls := lib_calls w @ [Channel_credentials_release (Some p)], fault := True\<rparr>"
  by (auto simp: grpc_channel_credentials_release_def Let_def)

lemma release_plain:
  "p < length (natives w) \<Longrightarrow> \<not> released (natives w ! p) \<Longrightarrow>
   options (natives w ! p) = no_verify_options \<Longrightarrow>
   grpc_channel_credentials_release lib (Some p) w =
     w\<lparr>lib_calls := lib_calls w @ [Channel_credentials_release (Some p)],
       natives := (natives w)[p := (natives w ! p)\<lparr>released := True\<rparr>]\<rparr>"
  by (simp add: grpc_channel_credentials_release_def Let_def no_verify_options_def)

lemma release_registered:
  "p < length (natives w) \<Longrightarrow> \<not> released (natives w ! p) \<Longrightarrow>
   options (natives w ! p) =
     \<lparr>verify_peer_callback = Some Verify_peer_callback_wrapper,
      verify_peer_callback_userdata = Some u,
      verify_peer_destruct = Some Verify_peer_callback_destruct\<rparr> \<Longrightarrow>
   u < length (callbacks w) \<Longrightarrow>
   grpc_channel_credentials_release lib (Some p) w =
     w\<lparr>lib_calls := lib_calls w @ [Channel_credentials_release (Some p)],
       natives := (natives w)[p := (natives w ! p)\<lparr>released := True\<rparr>],
       callbacks := (callbacks w)[u := (callbacks w ! u)\<lparr>deletes := Suc (deletes (callbacks w ! u))\<rparr>]\<rparr>"
  by (simp add: grpc_channel_credentials_release_def Let_def verify_peer_callback_destruct_def)

lemma anchored_cong:
  "natives w' = natives w \<Longrightarrow> callbacks w' = callbacks w \<Longrightarrow>
   registrations_anchored w' = registrations_anchored w"
  by (simp add: registrations_anchored_def registration_def)

lemma anchoredD1:
  assumes "registrations_anchored w" and "p < length (natives w)"
  shows "options (natives w ! p) = no_verify_options \<or>
         (\<exists>u < length (callbacks w).
            options (natives w ! p) =
              \<lparr>verify_peer_callback = Some Verify_peer_callback_wrapper,
               verify_peer_callback_userdata = Some u,
               verify_peer_destruct = Some Verify_peer_callback_destruct\<rparr> \<and>
            deletes (callbacks w ! u) = (if released (natives w ! p) then 1 else 0))"
  using assms unfolding registrations_anchored_def by blast

lemma anchoredD2:
  assumes "registrations_anchored w" and "p < length (natives w)" and "q < length (natives w)"
    and "registration w p = Some u" and "registration w q = Some u"
  shows "p = q"
  using assms unfolding registrations_anchored_def by force

lemma anchoredD3:
  assumes "registrations_anchored w" and "u < length (callbacks w)"
    and "\<forall>p < length (natives w). registration w p \<noteq> Some u"
  shows "deletes (callbacks w ! u) = 0"
  using assms unfolding registrations_anchored_def by blast

lemma anchored_release_plain:
  assumes inv: "registrations_anchored w" and p: "p < length (natives w)"
    and plain: "options (natives w ! p) = no_verify_options"
  shows "registrations_anchored (w\<lparr>natives := (natives w)[p := (natives w ! p)\<lparr>released := True\<rparr>]\<rparr>)"
    (is "registrations_anchored ?w'")
proof -
  have opts: "options (natives ?w' ! q) = options (natives w ! q)" if "q < length (natives w)" for q
    using that by (cases "q = p") simp_all
  have rel: "q \<noteq> p \<Longrightarrow> released (natives ?w' ! q) = released (natives w ! q)" for q
    by simp
  have reg: "registration ?w' q = registration w q" if "q < length (natives w)" for q
    using opts [OF that] by (simp add: registration_def)
  have one: "options (natives ?w' ! q) = no_verify_options \<or>
         (\<exists>u < length (callbacks ?w').
            options (natives ?w' ! q) =
              \<lparr>verify_peer_callback = Some Verify_peer_callback_wrapper,
               verify_peer_callback_userdata = Some u,
               verify_peer_destruct = Some Verify_peer_callback_destruct\<rparr> \<and>
            deletes (callbacks ?w' ! u) = (if released (natives ?w' ! q) then 1 else 0))"
    if q: "q < length (natives ?w')" for q
  proof (cases "q = p")
    case True
    with plain p show ?thesis by simp
  next
    case False
    from q have "q < length (natives w)" by simp
    from anchoredD1 [OF inv this] opts [OF this] rel [OF False] show ?thesis by simp
  qed
  have two: "p1 = p2" if "p1 < length (natives ?w')" "p2 < length (natives ?w')"
    "registration ?w' p1 = registration ?w' p2 \<and> registration ?w' p1 \<noteq> None" for p1 p2
  proof -
    from that have l: "p1 < length (natives w)" "p2 < length (natives w)" by simp_all
    have e: "registration w p1 = registration w p2" and n: "registration w p1 \<noteq> None"
      using that(3) unfolding reg [OF l(1)] reg [OF l(2)] by blast+
    from n obtain x where x: "registration w p1 = Some x" by blast
    with e have "registration w p2 = Some x" by simp
    from anchoredD2 [OF inv l x this] show ?thesis .
  qed
  have three: "deletes (callbacks ?w' ! u) = 0"
    if "u < length (callbacks ?w')" "\<forall>q < length (natives ?w'). registration ?w' q \<noteq> Some u" for u
  proof -
    from that(2) reg have "\<forall>q < length (natives w). registration w q \<noteq> Some u" by simp
    from anchoredD3 [OF inv _ this] that(1) show ?thesis by simp
  qed
  show ?thesis
    unfolding registrations_anchored_def using one two three by blast
qed

lemma anchored_release_registered:
  assumes inv: "registrations_anchored w" and p: "p < length (natives w)"
    and live: "\<not> released (natives w ! p)"
    and reg_p: "options (natives w ! p) =
              \<lparr>verify_peer_callback = Some Verify_peer_callback_wrapper,
               verify_peer_callback_userdata = Some u,
               verify_peer_destruct = Some Verify_peer_callback_destruct\<rparr>"
    and u: "u < length (callbacks w)"
  shows "registrations_anchored
           (w\<lparr>natives := (natives w)[p := (natives w ! p)\<lparr>released := True\<rparr>],
              callbacks := (callbacks w)[u := (callbacks w ! u)\<lparr>deletes := Suc (deletes (callbacks w ! u))\<rparr>]\<rparr>)"
    (is "registrations_anchored ?w'")
proof -
  have pu: "registration w p = Some u" using reg_p by (simp add: registration_def)
  have d0: "deletes (callbacks w ! u) = 0"
    using anchoredD1 [OF inv p] reg_p live by (auto simp: no_verify_options_def)
  have opts: "options (natives ?w' ! q) = options (natives w ! q)" if "q < length (natives w)" for q
    using that by (cases "q = p") simp_all
  have rel: "q \<noteq> p \<Longrightarrow> released (natives ?w' ! q) = released (natives w ! q)" for q
    by simp
  have reg: "registration ?w' q = registration w q" if "q < length (natives w)" for q
    using opts [OF that] by (simp add: registration_def)
  have cb: "v \<noteq> u \<Longrightarrow> callbacks ?w' ! v = callbacks w ! v" for v
    by simp
  have one: "options (natives ?w' ! q) = no_verify_options \<or>
         (\<exists>v < length (callbacks ?w').
            options (natives ?w' ! q) =
              \<lparr>verify_peer_callback = Some Verify_peer_callback_wrapper,
               verify_peer_callback_userdata = Some v,
               verify_peer_destruct = Some Verify_peer_callback_destruct\<rparr> \<and>
            deletes (callbacks ?w' ! v) = (if released (natives ?w' ! q) then 1 else 0))"
    if q: "q < length (natives ?w')" for q
  proof (cases "q = p")
    case True
    have "deletes (callbacks ?w' ! u) = 1" using u d0 by simp
    moreover have "released (natives ?w' ! p)" using p by simp
    moreover have "options (natives ?w' ! p) = options (natives w ! p)" using opts [OF p] .
    ultimately show ?thesis using True reg_p u by auto
  next
    case False
    from q have ql: "q < length (natives w)" by simp
    from anchoredD1 [OF inv ql] show ?thesis
    proof
      assume "options (natives w ! q) = no_verify_options"
      with opts [OF ql] show ?thesis by simp
    next
      assume "\<exists>v<length (callbacks w).
          options (natives w ! q) =
          \<lparr>verify_peer_callback = Some Verify_peer_callback_wrapper,
             verify_peer_callback_userdata = Some v,
             verify_peer_destruct = Some Verify_peer_callback_destruct\<rparr> \<and>
          deletes (callbacks w ! v) = (if released (natives w ! q) then 1 else 0)"
      then obtain v where v: "v < length (callbacks w)"
        "options (natives w ! q) =
          \<lparr>verify_peer_callback = Some Verify_peer_callback_wrapper,
             verify_peer_callback_userdata = Some v,
             verify_peer_destruct = Some Verify_peer_callback_destruct\<rparr>"
        "deletes (callbacks w ! v) = (if released (natives w ! q) then 1 else 0)" by blast
      from v(2) have "registration w q = Some v" by (simp add: registration_def)
      with anchoredD2 [OF inv ql p _ pu] False have "v \<noteq> u" by blast
      from cb [OF this] v opts [OF ql] rel [OF False] show ?thesis by auto
    qed
  qed
  have two: "p1 = p2" if "p1 < length (natives ?w')" "p2 < length (natives ?w')"
    "registration ?w' p1 = registration ?w' p2 \<and> registration ?w' p1 \<noteq> None" for p1 p2
  proof -
    from that have l: "p1 < length (natives w)" "p2 < length (natives w)" by simp_all
    have e: "registration w p1 = registration w p2" and n: "registration w p1 \<noteq> None"
      using that(3) unfolding reg [OF l(1)] reg [OF l(2)] by blast+
    from n obtain x where x: "registration w p1 = Some x" by blast
    with e have "registration w p2 = Some x" by simp
    from anchoredD2 [OF inv l x this] show ?thesis .
  qed
  have three: "deletes (callbacks ?w' ! v) = 0"
    if "v < length (callbacks ?w')" "\<forall>q < length (natives ?w'). registration ?w' q \<noteq> Some v" for v
  proof -
    from that(2) reg have no: "\<forall>q < length (natives w). registration w q \<noteq> Some v" by simp
    with p pu have "v \<noteq> u" by blast
    from anchoredD3 [OF inv _ no] that(1) cb [OF this] show ?thesis by simp
  qed
  show ?thesis
    unfolding registrations_anchored_def using one two three by blast
qed

lemma anchored_release:
  assumes "registrations_anchored w"
  shows "registrations_anchored (grpc_channel_credentials_release lib creds w)"
proof (cases creds)
  case None
  have "registrations_anchored (grpc_channel_credentials_release lib creds w) = registrations_anchored w"
    using None by (intro anchored_cong) (simp_all add: release_null)
  with assms show ?thesis by simp
next
  case (Some p)
  show ?thesis
  proof (cases "p < length (natives w) \<and> \<not> released (natives w ! p)")
    case False
    have "registrations_anchored (grpc_channel_credentials_release lib creds w) = registrations_anchored w"
      using False Some by (intro anchored_cong) (simp_all add: release_stale)
    with assms show ?thesis by simp
  next
    case True
    then have p: "p < length (natives w)" "\<not> released (natives w ! p)" by auto
    from anchoredD1 [OF assms p(1)] show ?thesis
    proof
      assume plain: "options (natives w ! p) = no_verify_options"
      have "registrations_anchored (grpc_channel_credentials_release lib creds w) =
            registrations_anchored (w\<lparr>natives := (natives w)[p := (natives w ! p)\<lparr>released := True\<rparr>]\<rparr>)"
        using Some p plain by (intro anchored_cong) (simp_all add: release_plain)
      with anchored_release_plain [OF assms p(1) plain] show ?thesis by simp
    next
      assume "\<exists>u<length (callbacks w).
          options (natives w ! p) =
          \<lparr>verify_peer_callback = Some Verify_peer_callback_wrapper,
             verify_peer_callback_userdata = Some u,
             verify_peer_destruct = Some Verify_peer_callback_destruct\<rparr> \<and>
          deletes (callbacks w ! u) = (if released (natives w ! p) then 1 else 0)"
      then obtain u where u: "u < length (callbacks w)"
        "options (natives w ! p) =
          \<lparr>verify_peer_callback = Some Verify_peer_callback_wrapper,
             verify_peer_callback_userdata = Some u,
             verify_peer_destruct = Some Verify_peer_callback_destruct\<rparr>" by blast
      have "registrations_anchored (grpc_channel_credentials_release lib creds w) =
            registrations_anchored
              (w\<lparr>natives := (natives w)[p := (natives w ! p)\<lparr>released := True\<rparr>],
                 callbacks := (callbacks w)[u := (callbacks w ! u)\<lparr>deletes := Suc (deletes (callbacks w ! u))\<rparr>]\<rparr>)"
        using Some p u by (intro anchored_cong) (simp_all add: release_registered)
      with anchored_release_registered [OF assms p u(2) u(1)] show ?thesis by simp
    qed
  qed
qed

lemma anchored_new_callback:
  assumes inv: "registrations_anchored w"
  shows "registrations_anchored (w\<lparr>callbacks := callbacks w @ [\<lparr>fn = f, deletes = 0\<rparr>]\<rparr>)"
    (is "registrations_anchored ?w'")
proof -
  have reg: "registration ?w' q = registration w q" for q by (simp add: registration_def)
  have cb: "v < length (callbacks w) \<Longrightarrow> callbacks ?w' ! v = callbacks w ! v" for v
    by (simp add: nth_append)
  have one: "options (natives ?w' ! q) = no_verify_options \<or>
         (\<exists>v < length (callbacks ?w').
            options (natives ?w' ! q) =
              \<lparr>verify_peer_callback = Some Verify_peer_callback_wrapper,
               verify_peer_callback_userdata = Some v,
               verify_peer_destruct = Some Verify_peer_callback_destruct\<rparr> \<and>
            deletes (callbacks ?w' ! v) = (if released (natives ?w' ! q) then 1 else 0))"
    if q: "q < length (natives ?w')" for q
  proof -
    from q have ql: "q < length (natives w)" by simp
    from anchoredD1 [OF inv ql] show ?thesis
    proof
      assume "options (natives w ! q) = no_verify_options"
      then show ?thesis by simp
    next
      assume "\<exists>v<length (callbacks w).
          options (natives w ! q) =
          \<lparr>verify_peer_callback = Some Verify_peer_callback_wrapper,
             verify_peer_callback_userdata = Some v,
             verify_peer_destruct = Some Verify_peer_callback_destruct\<rparr> \<and>
          deletes (callbacks w ! v) = (if released (natives w ! q) then 1 else 0)"
      then obtain v where v: "v < length (callbacks w)"
        "options (natives w ! q) =
          \<lparr>verify_peer_callback = Some Verify_peer_callback_wrapper,
             verify_peer_callback_userdata = Some v,
             verify_peer_destruct = Some Verify_peer_callback_destruct\<rparr>"
        "deletes (callbacks w ! v) = (if released (natives w ! q) then 1 else 0)" by blast
      have "v < length (callbacks ?w')" using v(1) by simp
      moreover have "deletes (callbacks ?w' ! v) = (if released (natives ?w' ! q) then 1 else 0)"
        using cb [OF v(1)] v(3) by simp
      moreover have "options (natives ?w' ! q) =
          \<lparr>verify_peer_callback = Some Verify_peer_callback_wrapper,
             verify_peer_callback_userdata = Some v,
             verify_peer_destruct = Some Verify_peer_callback_destruct\<rparr>" using v(2) by simp
      ultimately show ?thesis by blast
    qed
  qed
  have two: "p1 = p2" if "p1 < length (natives ?w')" "p2 < length (natives ?w')"
    "registration ?w' p1 = registration ?w' p2 \<and> registration ?w' p1 \<noteq> None" for p1 p2
  proof -
    from that have l: "p1 < length (natives w)" "p2 < length (natives w)" by simp_all
    have e: "registration w p1 = registration w p2" and n: "registration w p1 \<noteq> None"
      using that(3) unfolding reg by blast+
    from n obtain x where x: "registration w p1 = Some x" by blast
    with e have "registration w p2 = Some x" by simp
    from anchoredD2 [OF inv l x this] show ?thesis .
  qed
  have three: "deletes (callbacks ?w' ! v) = 0"
    if "v < length (callbacks ?w')" "\<forall>q < length (natives ?w'). registration ?w' q \<noteq> Some v" for v
  proof (cases "v < length (callbacks w)")
    case True
    from that(2) have no: "\<forall>q < length (natives w). registration w q \<noteq> Some v"
      unfolding reg by simp
    from anchoredD3 [OF inv True no] cb [OF True] show ?thesis by simp
  next
    case False
    with that(1) have "v = length (callbacks w)" by simp
    then show ?thesis by simp
  qed
  show ?thesis
    unfolding registrations_anchored_def using one two three by blast
qed

text \<open>A new native credential: without options, or with a registration no credential has yet.\<close>

lemma anchored_new_native:
  assumes inv: "registrations_anchored w"
    and vo: "vo = no_verify_options \<or>
       (\<exists>u < length (callbacks w).
          vo = \<lparr>verify_peer_callback = Some Verify_peer_callback_wrapper,
                verify_peer_callback_userdata = Some u,
                verify_peer_destruct = Some Verify_peer_callback_destruct\<rparr> \<and>
          (\<forall>q < length (natives w). registration w q \<noteq> Some u))"
  shows "registrations_anchored (w\<lparr>natives := natives w @ [\<lparr>kind = k, options = vo, released = False\<rparr>]\<rparr>)"
    (is "registrations_anchored ?w'")
proof -
  let ?n = "length (natives w)"
  have old: "natives ?w' ! q = natives w ! q" if "q < ?n" for q
    using that by (simp add: nth_append)
  have new: "natives ?w' ! ?n = \<lparr>kind = k, options = vo, released = False\<rparr>" by simp
  have reg: "registration ?w' q = registration w q" if "q < ?n" for q
    using old [OF that] by (simp add: registration_def)
  have regn: "registration ?w' ?n = verify_peer_callback_userdata vo"
    by (simp add: registration_def)
  have split: "q < ?n \<or> q = ?n" if "q < length (natives ?w')" for q
    using that by auto
  have one: "options (natives ?w' ! q) = no_verify_options \<or>
         (\<exists>v < length (callbacks ?w').
            options (natives ?w' ! q) =
              \<lparr>verify_peer_callback = Some Verify_peer_callback_wrapper,
               verify_peer_callback_userdata = Some v,
               verify_peer_destruct = Some Verify_peer_callback_destruct\<rparr> \<and>
            deletes (callbacks ?w' ! v) = (if released (natives ?w' ! q) then 1 else 0))"
    if q: "q < length (natives ?w')" for q
    using split [OF q]
  proof
    assume ql: "q < ?n"
    from anchoredD1 [OF inv ql] old [OF ql] show ?thesis by simp
  next
    assume qn: "q = ?n"
    from vo show ?thesis
    proof
      assume "vo = no_verify_options"
      with qn show ?thesis by simp
    next
      assume "\<exists>u < length (callbacks w).
          vo = \<lparr>verify_peer_callback = Some Verify_peer_callback_wrapper,
                verify_peer_callback_userdata = Some u,
                verify_peer_destruct = Some Verify_peer_callback_destruct\<rparr> \<and>
          (\<forall>q < length (natives w). registration w q \<noteq> Some u)"
      then obtain u where u: "u < length (callbacks w)"
        "vo = \<lparr>verify_peer_callback = Some Verify_peer_callback_wrapper,
                verify_peer_callback_userdata = Some u,
                verify_peer_destruct = Some Verify_peer_callback_destruct\<rparr>"
        "\<forall>q < length (natives w). registration w q \<noteq> Some u" by blast
      from anchoredD3 [OF inv u(1) u(3)] have "deletes (callbacks w ! u) = 0" .
      with u(1,2) qn show ?thesis by simp
    qed
  qed
  have two: "p1 = p2" if "p1 < length (natives ?w')" "p2 < length (natives ?w')"
    "registration ?w' p1 = registration ?w' p2 \<and> registration ?w' p1 \<noteq> None" for p1 p2
  proof -
    have fresh: False if "q < ?n" "registration w q = verify_peer_callback_userdata vo"
      "registration w q \<noteq> None" for q
      using vo that by (auto simp: no_verify_options_def)
    from split [OF that(1)] split [OF that(2)] show ?thesis
    proof (elim disjE)
      assume l: "p1 < ?n" "p2 < ?n"
      have e: "registration w p1 = registration w p2" and n: "registration w p1 \<noteq> None"
        using that(3) unfolding reg [OF l(1)] reg [OF l(2)] by blast+
      from n obtain x where x: "registration w p1 = Some x" by blast
      with e have "registration w p2 = Some x" by simp
      from anchoredD2 [OF inv l x this] show ?thesis .
    next
      assume l: "p1 < ?n" "p2 = ?n"
      have "registration w p1 = verify_peer_callback_userdata vo" "registration w p1 \<noteq> None"
        using that(3) unfolding l(2) regn reg [OF l(1)] by blast+
      from fresh [OF l(1) this] show ?thesis ..
    next
      assume l: "p1 = ?n" "p2 < ?n"
      have "registration w p2 = verify_peer_callback_userdata vo" "registration w p2 \<noteq> None"
        using that(3) unfolding l(1) regn reg [OF l(2)] by metis+
      from fresh [OF l(2) this] show ?thesis ..
    next
      assume "p1 = ?n" "p2 = ?n"
      then show ?thesis by simp
    qed
  qed
  have three: "deletes (callbacks ?w' ! v) = 0"
    if "v < length (callbacks ?w')" "\<forall>q < length (natives ?w'). registration ?w' q \<noteq> Some v" for v
  proof -
    have "registration w q \<noteq> Some v" if "q < ?n" for q
    proof -
      from that have "q < length (natives ?w')" by simp
      with \<open>\<forall>q < length (natives ?w'). registration ?w' q \<noteq> Some v\<close>
      have "registration ?w' q \<noteq> Some v" by blast
      then show ?thesis unfolding reg [OF that] .
    qed
    then have no: "\<forall>q < ?n. registration w q \<noteq> Some v" by blast
    from anchoredD3 [OF inv _ no] that(1) show ?thesis by simp
  qed
  show ?thesis
    unfolding registrations_anchored_def using one two three by blast
qed

lemma registration_in_range:
  assumes "registrations_anchored w" and "q < length (natives w)" and "registration w q = Some u"
  shows "u < length (callbacks w)"
  using anchoredD1 [OF assms(1,2)] assms(3)
  by (auto simp: registration_def no_verify_options_def)

lemma anchored_verify_options:
  assumes inv: "registrations_anchored w"
    and vo: "CreateSsl_verify_options heap w v = Inr (vo, w1)"
  shows "registrations_anchored w1"
    and "vo = no_verify_options \<or>
       (\<exists>u < length (callbacks w1).
          vo = \<lparr>verify_peer_callback = Some Verify_peer_callback_wrapper,
                verify_peer_callback_userdata = Some u,
                verify_peer_destruct = Some Verify_peer_callback_destruct\<rparr> \<and>
          (\<forall>q < length (natives w1). registration w1 q \<noteq> Some u))"
proof -
  from verify_options_cases [OF vo] show "registrations_anchored w1"
    using anchored_new_callback [OF inv] inv by auto
  show "vo = no_verify_options \<or>
       (\<exists>u < length (callbacks w1).
          vo = \<lparr>verify_peer_callback = Some Verify_peer_callback_wrapper,
                verify_peer_callback_userdata = Some u,
                verify_peer_destruct = Some Verify_peer_callback_destruct\<rparr> \<and>
          (\<forall>q < length (natives w1). registration w1 q \<noteq> Some u))"
  proof (cases "vo = no_verify_options")
    case True
    then show ?thesis by simp
  next
    case False
    with verify_options_cases [OF vo] obtain f
      where a: "vo = \<lparr>verify_peer_callback = Some Verify_peer_callback_wrapper,
                verify_peer_callback_userdata = Some (length (callbacks w)),
                verify_peer_destruct = Some Verify_peer_callback_destruct\<rparr>"
      and b: "w1 = w\<lparr>callbacks := callbacks w @ [\<lparr>fn = f, deletes = 0\<rparr>]\<rparr>"
      by blast
    have "registration w1 q \<noteq> Some (length (callbacks w))" if "q < length (natives w1)" for q
    proof
      assume "registration w1 q = Some (length (callbacks w))"
      then have "registration w q = Some (length (callbacks w))"
        using b by (simp add: registration_def)
      moreover have "q < length (natives w)" using that b by simp
      ultimately have "length (callbacks w) < length (callbacks w)"
        using registration_in_range [OF inv] by blast
      then show False by simp
    qed
    moreover have "length (callbacks w) < length (callbacks w1)" using b by simp
    ultimately show ?thesis using a by blast
  qed
qed

lemma step_anchored:
  assumes inv: "registrations_anchored w"
  shows "registrations_anchored (step heap lib w op)"
proof (cases op)
  case Call_CreateInsecure
  have "registrations_anchored (step heap lib w op) = registrations_anchored w"
    by (intro anchored_cong) (simp_all add: Call_CreateInsecure CreateInsecure_eq)
  with inv show ?thesis by simp
next
  case (Call_CreateSsl info)
  show ?thesis
  proof (cases rule: CreateSsl_cases [of heap lib w info])
    case (Stops stop)
    with Call_CreateSsl inv show ?thesis by simp
  next
    case (Refused vo w1)
    have "registrations_anchored (step heap lib w op) = registrations_anchored w1"
      by (intro anchored_cong) (simp_all add: Call_CreateSsl Refused(3))
    with anchored_verify_options(1) [OF inv Refused(1)] show ?thesis by simp
  next
    case (Built vo w1)
    note fr = verify_options_frame [OF Built(1)]
    let ?c = "\<lparr>kind = Ssl_credentials (get (assign (arg info 0)))
                   (key_cert_argument info),
                 options = vo, released = False\<rparr>"
    have "registrations_anchored (step heap lib w op) =
          registrations_anchored (w1\<lparr>natives := natives w1 @ [?c]\<rparr>)"
      by (intro anchored_cong) (simp_all add: Call_CreateSsl Built(3) fr)
    with anchored_new_native [OF anchored_verify_options [OF inv Built(1)]] show ?thesis by simp
  qed
next
  case (Call_Compose this info)
  show ?thesis
  proof (cases rule: Compose_cases [of lib w this info])
    case (Throw e)
    with Call_Compose inv show ?thesis by simp
  next
    case Dangle
    with Call_Compose inv show ?thesis by simp
  next
    case (Refused self p)
    have "registrations_anchored (step heap lib w op) = registrations_anchored w"
      by (intro anchored_cong) (simp_all add: Call_Compose Refused(5))
    with inv show ?thesis by simp
  next
    case (Built self p)
    let ?c = "\<lparr>kind = Composite_credentials p (GetWrappedCredentials (arg info 0)),
                 options = no_verify_options, released = False\<rparr>"
    have "registrations_anchored (step heap lib w op) =
          registrations_anchored (w\<lparr>natives := natives w @ [?c]\<rparr>)"
      by (intro anchored_cong) (simp_all add: Call_Compose Built(5))
    with anchored_new_native [OF inv, of no_verify_options] show ?thesis by simp
  qed
next
  case (Call_New c info)
  have "registrations_anchored (step heap lib w op) = registrations_anchored w"
    by (intro anchored_cong; cases "arg info 0") (simp_all add: Call_New New_def)
  with inv show ?thesis by simp
next
  case (Collect h)
  show ?thesis
  proof (cases "h < length (handles w) \<and> \<not> destructed (handles w ! h)")
    case False
    with inv show ?thesis by (simp add: Collect delete_handle_dead)
  next
    case True
    let ?w1 = "w\<lparr>handles := (handles w)[h := (handles w ! h)\<lparr>destructed := True\<rparr>]\<rparr>"
    have "registrations_anchored ?w1 = registrations_anchored w"
      by (intro anchored_cong) simp_all
    with inv have "registrations_anchored ?w1" by simp
    from anchored_release [OF this] True show ?thesis
      by (simp add: Collect delete_handle_def ChannelCredentials_destructor_def)
  qed
qed

lemma run_anchored:
  "registrations_anchored w \<Longrightarrow> registrations_anchored (run heap lib ops w)"
  by (induction ops rule: rev_induct) (simp_all add: run_Nil run_snoc step_anchored)

lemma init_anchored: "registrations_anchored init"
  by (simp add: registrations_anchored_def init_def)

subsection \<open>Handles own their credentials\<close>

lemma own_cong:
  "natives w' = natives w \<Longrightarrow> handles w' = handles w \<Longrightarrow> handles_own w' = handles_own w"
  by (simp add: handles_own_def)

lemma ownD1:
  assumes "handles_own w" and "h < length (handles w)"
    and "wrapped_credentials (handles w ! h) = Some p"
  shows "p < length (natives w)" and "released (natives w ! p) = destructed (handles w ! h)"
  using assms unfolding handles_own_def by blast+

lemma ownD2:
  assumes "handles_own w" and "h < length (handles w)" and "h' < length (handles w)"
    and "wrapped_credentials (handles w ! h) = Some p"
    and "wrapped_credentials (handles w ! h') = Some p"
  shows "h = h'"
  using assms unfolding handles_own_def by force

lemma ownD3:
  assumes "handles_own w" and "p < length (natives w)"
  shows "\<exists>h < length (handles w). wrapped_credentials (handles w ! h) = Some p"
  using assms unfolding handles_own_def by blast

lemma ownI:
  assumes "\<And>h p. h < length (handles w) \<Longrightarrow> wrapped_credentials (handles w ! h) = Some p \<Longrightarrow>
             p < length (natives w) \<and> released (natives w ! p) = destructed (handles w ! h)"
    and "\<And>h h' p. h < length (handles w) \<Longrightarrow> h' < length (handles w) \<Longrightarrow>
             wrapped_credentials (handles w ! h) = Some p \<Longrightarrow>
             wrapped_credentials (handles w ! h') = Some p \<Longrightarrow> h = h'"
    and "\<And>p. p < length (natives w) \<Longrightarrow>
             \<exists>h < length (handles w). wrapped_credentials (handles w ! h) = Some p"
  shows "handles_own w"
  unfolding handles_own_def
proof (intro conjI allI impI)
  fix h p assume "h < length (handles w)" "wrapped_credentials (handles w ! h) = Some p"
  from assms(1) [OF this] show "p < length (natives w)"
    and "released (natives w ! p) = destructed (handles w ! h)" by blast+
next
  fix h h'
  assume a: "h < length (handles w)" "h' < length (handles w)"
    and b: "wrapped_credentials (handles w ! h) = wrapped_credentials (handles w ! h') \<and>
            wrapped_credentials (handles w ! h) \<noteq> None"
  from b obtain p where p: "wrapped_credentials (handles w ! h) = Some p" by blast
  with b have "wrapped_credentials (handles w ! h') = Some p" by simp
  from assms(2) [OF a p this] show "h = h'" .
next
  fix p assume "p < length (natives w)"
  from assms(3) [OF this]
  show "\<exists>h < length (handles w). wrapped_credentials (handles w ! h) = Some p" .
qed

lemma own_new_insecure:
  assumes inv: "handles_own w"
  shows "handles_own (w\<lparr>handles := handles w @ [\<lparr>wrapped_credentials = None, destructed = False\<rparr>]\<rparr>)"
    (is "handles_own ?w'")
proof (rule ownI)
  have old: "handles ?w' ! h = handles w ! h" if "h < length (handles w)" for h
    using that by (simp add: nth_append)
  have range: "h < length (handles w)"
    if "h < length (handles ?w')" "wrapped_credentials (handles ?w' ! h) = Some p" for h p
  proof (rule ccontr)
    assume "\<not> h < length (handles w)"
    with that(1) have "h = length (handles w)" by simp
    with that(2) show False by simp
  qed
  { fix h p assume a: "h < length (handles ?w')" "wrapped_credentials (handles ?w' ! h) = Some p"
    note l = range [OF a]
    from a(2) old [OF l] have "wrapped_credentials (handles w ! h) = Some p" by simp
    from ownD1 [OF inv l this] old [OF l]
    show "p < length (natives ?w') \<and> released (natives ?w' ! p) = destructed (handles ?w' ! h)"
      by simp }
  { fix h h' p
    assume a: "h < length (handles ?w')" "wrapped_credentials (handles ?w' ! h) = Some p"
      and b: "h' < length (handles ?w')" "wrapped_credentials (handles ?w' ! h') = Some p"
    note l = range [OF a] and l' = range [OF b]
    from a(2) old [OF l] have 1: "wrapped_credentials (handles w ! h) = Some p" by simp
    from b(2) old [OF l'] have 2: "wrapped_credentials (handles w ! h') = Some p" by simp
    from ownD2 [OF inv l l' 1 2] show "h = h'" . }
  { fix p assume "p < length (natives ?w')"
    then have "p < length (natives w)" by simp
    from ownD3 [OF inv this] obtain h where h: "h < length (handles w)"
      "wrapped_credentials (handles w ! h) = Some p" by blast
    with old [OF h(1)] have "h < length (handles ?w')"
      "wrapped_credentials (handles ?w' ! h) = Some p" by simp_all
    then show "\<exists>h < length (handles ?w'). wrapped_credentials (handles ?w' ! h) = Some p"
      by blast }
qed

lemma own_new_native:
  assumes inv: "handles_own w" and live: "\<not> released c"
  shows "handles_own
           (w\<lparr>natives := natives w @ [c],
              handles := handles w @
                [\<lparr>wrapped_credentials = Some (length (natives w)), destructed = False\<rparr>]\<rparr>)"
    (is "handles_own ?w'")
proof (rule ownI)
  let ?n = "length (natives w)" and ?m = "length (handles w)"
  have old: "handles ?w' ! h = handles w ! h" if "h < ?m" for h
    using that by (simp add: nth_append)
  have new: "handles ?w' ! ?m = \<lparr>wrapped_credentials = Some ?n, destructed = False\<rparr>"
    by simp
  have oldn: "natives ?w' ! p = natives w ! p" if "p < ?n" for p
    using that by (simp add: nth_append)
  have newn: "natives ?w' ! ?n = c" by simp
  have split: "h < ?m \<or> h = ?m" if "h < length (handles ?w')" for h
    using that by auto
  have below: "p < ?n" if "h < ?m" "wrapped_credentials (handles ?w' ! h) = Some p" for h p
  proof -
    from that old [OF that(1)] have "wrapped_credentials (handles w ! h) = Some p" by simp
    from ownD1(1) [OF inv that(1) this] show ?thesis .
  qed
  { fix h p assume a: "h < length (handles ?w')" "wrapped_credentials (handles ?w' ! h) = Some p"
    from split [OF a(1)]
    show "p < length (natives ?w') \<and> released (natives ?w' ! p) = destructed (handles ?w' ! h)"
    proof
      assume l: "h < ?m"
      from a(2) old [OF l] have w: "wrapped_credentials (handles w ! h) = Some p" by simp
      from ownD1 [OF inv l w] old [OF l] oldn [of p] show ?thesis by simp
    next
      assume e: "h = ?m"
      with a(2) have "p = ?n" by simp
      with e live show ?thesis by simp
    qed }
  { fix h h' p
    assume a: "h < length (handles ?w')" "wrapped_credentials (handles ?w' ! h) = Some p"
      and b: "h' < length (handles ?w')" "wrapped_credentials (handles ?w' ! h') = Some p"
    from split [OF a(1)] split [OF b(1)] show "h = h'"
    proof (elim disjE)
      assume l: "h < ?m" "h' < ?m"
      from a(2) old [OF l(1)] have 1: "wrapped_credentials (handles w ! h) = Some p" by simp
      from b(2) old [OF l(2)] have 2: "wrapped_credentials (handles w ! h') = Some p" by simp
      from ownD2 [OF inv l 1 2] show ?thesis .
    next
      assume l: "h < ?m" "h' = ?m"
      from below [OF l(1) a(2)] have "p < ?n" .
      moreover from b(2) l(2) have "p = ?n" by simp
      ultimately show ?thesis by simp
    next
      assume l: "h = ?m" "h' < ?m"
      from below [OF l(2) b(2)] have "p < ?n" .
      moreover from a(2) l(1) have "p = ?n" by simp
      ultimately show ?thesis by simp
    next
      assume "h = ?m" "h' = ?m"
      then show ?thesis by simp
    qed }
  { fix p assume "p < length (natives ?w')"
    then have "p < ?n \<or> p = ?n" by auto
    then show "\<exists>h < length (handles ?w'). wrapped_credentials (handles ?w' ! h) = Some p"
    proof
      assume "p < ?n"
      from ownD3 [OF inv this] obtain h where h: "h < ?m"
        "wrapped_credentials (handles w ! h) = Some p" by blast
      with old [OF h(1)] have "h < length (handles ?w')"
        "wrapped_credentials (handles ?w' ! h) = Some p" by simp_all
      then show ?thesis by blast
    next
      assume "p = ?n"
      then have "?m < length (handles ?w')" "wrapped_credentials (handles ?w' ! ?m) = Some p"
        by simp_all
      then show ?thesis by blast
    qed }
qed

lemma release_natives:
  "natives (grpc_channel_credentials_release lib creds w) =
     (case creds of
        None \<Rightarrow> natives w
      | Some p \<Rightarrow>
          if p < length (natives w) \<and> \<not> released (natives w ! p)
          then (natives w)[p := (natives w ! p)\<lparr>released := True\<rparr>]
          else natives w)"
  by (simp add: grpc_channel_credentials_release_def Let_def destruct_frame
        split: option.splits destruct_fn.splits)

lemma own_destruct:
  assumes inv: "handles_own w" and h: "h < length (handles w)"
    and live: "\<not> destructed (handles w ! h)"
  shows "handles_own (delete_handle lib h w)" (is "handles_own ?w'")
proof -
  let ?hs = "(handles w)[h := (handles w ! h)\<lparr>destructed := True\<rparr>]"
  let ?w1 = "w\<lparr>handles := ?hs\<rparr>"
  have dh: "?w' = grpc_channel_credentials_release lib (wrapped_credentials (handles w ! h)) ?w1"
    using h live by (simp add: delete_handle_def ChannelCredentials_destructor_def)
  have hs: "handles ?w' = ?hs" unfolding dh by (simp add: release_frame)
  have len: "length (handles ?w') = length (handles w)" unfolding hs by simp
  have wr: "wrapped_credentials (handles ?w' ! k) = wrapped_credentials (handles w ! k)"
    if "k < length (handles w)" for k
    unfolding hs using that by (cases "k = h") simp_all
  have de: "destructed (handles ?w' ! k) = (k = h \<or> destructed (handles w ! k))"
    if "k < length (handles w)" for k
    unfolding hs using that by (cases "k = h") simp_all
  have lenn: "length (natives ?w') = length (natives w)"
    unfolding dh by (simp add: release_natives split: option.splits)
  have re: "released (natives ?w' ! q) =
              (wrapped_credentials (handles w ! h) = Some q \<or> released (natives w ! q))"
    if q: "q < length (natives w)" for q
  proof (cases "wrapped_credentials (handles w ! h)")
    case None
    then show ?thesis unfolding dh by (simp add: release_natives)
  next
    case (Some p)
    from ownD1 [OF inv h Some] live have p: "p < length (natives w)" "\<not> released (natives w ! p)"
      by simp_all
    have "natives ?w' = (natives w)[p := (natives w ! p)\<lparr>released := True\<rparr>]"
      unfolding dh using Some p by (simp add: release_natives)
    then show ?thesis using Some q by (cases "q = p") simp_all
  qed
  show ?thesis
  proof (rule ownI)
    fix k q assume a: "k < length (handles ?w')" "wrapped_credentials (handles ?w' ! k) = Some q"
    from a(1) len have k: "k < length (handles w)" by simp
    from a(2) wr [OF k] have w: "wrapped_credentials (handles w ! k) = Some q" by simp
    note o = ownD1 [OF inv k w]
    have "(wrapped_credentials (handles w ! h) = Some q) = (k = h)"
    proof
      assume "wrapped_credentials (handles w ! h) = Some q"
      from ownD2 [OF inv k h w this] show "k = h" .
    next
      assume "k = h"
      with w show "wrapped_credentials (handles w ! h) = Some q" by simp
    qed
    with re [OF o(1)] de [OF k] o lenn
    show "q < length (natives ?w') \<and> released (natives ?w' ! q) = destructed (handles ?w' ! k)"
      by simp
  next
    fix k k' q
    assume a: "k < length (handles ?w')" "k' < length (handles ?w')"
      "wrapped_credentials (handles ?w' ! k) = Some q"
      "wrapped_credentials (handles ?w' ! k') = Some q"
    from a(1,2) len have k: "k < length (handles w)" "k' < length (handles w)" by simp_all
    from a(3) wr [OF k(1)] have 1: "wrapped_credentials (handles w ! k) = Some q" by simp
    from a(4) wr [OF k(2)] have 2: "wrapped_credentials (handles w ! k') = Some q" by simp
    from ownD2 [OF inv k 1 2] show "k = k'" .
  next
    fix q assume "q < length (natives ?w')"
    with lenn have "q < length (natives w)" by simp
    from ownD3 [OF inv this] obtain k where k: "k < length (handles w)"
      "wrapped_credentials (handles w ! k) = Some q" by blast
    with wr [OF k(1)] len have "k < length (handles ?w')"
      "wrapped_credentials (handles ?w' ! k) = Some q" by simp_all
    then show "\<exists>k < length (handles ?w'). wrapped_credentials (handles ?w' ! k) = Some q"
      by blast
  qed
qed


lemma step_own:
  assumes inv: "handles_own w" and script: "script_operation op"
  shows "handles_own (step heap lib w op)"
proof (cases op)
  case Call_CreateInsecure
  with own_new_insecure [OF inv] show ?thesis by (simp add: CreateInsecure_eq)
next
  case (Call_CreateSsl info)
  show ?thesis
  proof (cases rule: CreateSsl_cases [of heap lib w info])
    case (Stops stop)
    with Call_CreateSsl inv show ?thesis by simp
  next
    case (Refused vo w1)
    note fr = verify_options_frame [OF Refused(1)]
    have "handles_own (step heap lib w op) = handles_own w"
      by (intro own_cong) (simp_all add: Call_CreateSsl Refused(3) fr)
    with inv show ?thesis by simp
  next
    case (Built vo w1)
    note fr = verify_options_frame [OF Built(1)]
    let ?c = "\<lparr>kind = Ssl_credentials (get (assign (arg info 0)))
                   (key_cert_argument info),
                 options = vo, released = False\<rparr>"
    have "handles_own (step heap lib w op) =
          handles_own (w\<lparr>natives := natives w @ [?c],
              handles := handles w @
                [\<lparr>wrapped_credentials = Some (length (natives w)), destructed = False\<rparr>]\<rparr>)"
      by (intro own_cong) (simp_all add: Call_CreateSsl Built(3) fr)
    with own_new_native [OF inv, of ?c] show ?thesis by simp
  qed
next
  case (Call_Compose this info)
  show ?thesis
  proof (cases rule: Compose_cases [of lib w this info])
    case (Throw e)
    with Call_Compose inv show ?thesis by simp
  next
    case Dangle
    with Call_Compose inv show ?thesis by simp
  next
    case (Refused self p)
    have "handles_own (step heap lib w op) = handles_own w"
      by (intro own_cong) (simp_all add: Call_Compose Refused(5))
    with inv show ?thesis by simp
  next
    case (Built self p)
    let ?c = "\<lparr>kind = Composite_credentials p (GetWrappedCredentials (arg info 0)),
                 options = no_verify_options, released = False\<rparr>"
    have "handles_own (step heap lib w op) =
          handles_own (w\<lparr>natives := natives w @ [?c],
              handles := handles w @
                [\<lparr>wrapped_credentials = Some (length (natives w)), destructed = False\<rparr>]\<rparr>)"
      by (intro own_cong) (simp_all add: Call_Compose Built(5))
    with own_new_native [OF inv, of ?c] show ?thesis by simp
  qed
next
  case (Call_New c info)
  with script have "\<not> IsExternal (arg info 0)" by simp
  then have "New w c info = (Throws (TypeError only_provided), w)"
    by (cases "arg info 0") (simp_all add: New_def)
  with Call_New inv show ?thesis by simp
next
  case (Collect h)
  show ?thesis
  proof (cases "h < length (handles w) \<and> \<not> destructed (handles w ! h)")
    case False
    with inv show ?thesis by (simp add: Collect delete_handle_dead)
  next
    case True
    with own_destruct [OF inv, of h lib] show ?thesis by (simp add: Collect)
  qed
qed




lemma init_own: "handles_own init"
  by (simp add: handles_own_def init_def)

subsection \<open>Handles are immutable\<close>

lemma step_handles_frame:
  assumes "h < length (handles w)"
  shows "h < length (handles (step heap lib w op)) \<and>
         wrapped_credentials (handles (step heap lib w op) ! h) = wrapped_credentials (handles w ! h) \<and>
         (destructed (handles w ! h) \<longrightarrow> destructed (handles (step heap lib w op) ! h))"
  using step_handles [of heap lib w op] assms
  by (auto simp: nth_append nth_list_update)

lemma run_handles_frame:
  assumes "h < length (handles w)"
  shows "h < length (handles (run heap lib ops w)) \<and>
         wrapped_credentials (handles (run heap lib ops w) ! h) = wrapped_credentials (handles w ! h) \<and>
         (destructed (handles w ! h) \<longrightarrow> destructed (handles (run heap lib ops w) ! h))"
proof (induction ops rule: rev_induct)
  case Nil
  with assms show ?case by (simp add: run_Nil)
next
  case (snoc op ops)
  then have l: "h < length (handles (run heap lib ops w))" by simp
  from step_handles_frame [OF l, of heap lib op] snoc show ?case by (simp add: run_snoc)
qed

lemma run_own:
  assumes "handles_own w" and "\<forall>op \<in> set ops. script_operation op"
  shows "handles_own (run heap lib ops w)"
  using assms(2)
proof (induction ops rule: rev_induct)
  case Nil
  with assms show ?case by (simp add: run_Nil)
next
  case (snoc op ops)
  then have "handles_own (run heap lib ops w)" and "script_operation op" by simp_all
  from step_own [OF this] show ?case by (simp add: run_snoc)
qed


lemma insecure_release_needs_null_safety:
  assumes "h < length (handles w)" and "\<not> destructed (handles w ! h)"
    and "wrapped_credentials (handles w ! h) = None"
  shows "fault (delete_handle lib h w) = (fault w \<or> \<not> release_accepts_null lib)"
  using assms by (simp add: delete_handle_def ChannelCredentials_destructor_def release_null)

subsection \<open>Evaluation and the native layer\<close>

lemmas evaluation =
  run_def init_def willing_library_def refusing_library_def CreateInsecure_eq CreateSsl_def
  Compose_def arg_def nullish_def isAssigned_def CreateSsl_verify_options_def
  grpc_ssl_credentials_create_def grpc_composite_channel_credentials_create_def WrapStruct_eq
  delete_handle_def ChannelCredentials_destructor_def grpc_channel_credentials_release_def
  verify_peer_callback_destruct_def no_verify_options_def installed_options_def
  key_cert_argument_def ChannelCredentials_HasInstance_def CallCredentials_HasInstance_def
  supplied_def Let_def strict_library_def plain_heap_def verifier_heap_def Get_def get_def
  c_str_def key_cert_valid_def options_valid_def

lemma release_new_registered:
  assumes "natives w = ns @ [\<lparr>kind = k, options = installed_options (length cbs), released = False\<rparr>]"
    and "callbacks w = cbs @ [\<lparr>fn = f, deletes = 0\<rparr>]"
  shows "callbacks (grpc_channel_credentials_release lib (Some (length ns)) w)
           = cbs @ [\<lparr>fn = f, deletes = 1\<rparr>]"
  using assms
  by (simp add: grpc_channel_credentials_release_def Let_def installed_options_def
        verify_peer_callback_destruct_def)

lemma Compose_completes:
  assumes "Unwrap w this = Some self" and "wrapped_credentials self = Some p"
    and "CallCredentials_HasInstance (arg info 0)"
  shows "completes (fst (Compose lib w this info))"
  using assms Unwrap_HasInstance [OF assms(1)]
  by (simp add: Compose_def grpc_composite_channel_credentials_create_def Let_def WrapStruct_eq)

text \<open>What the library sees of a Buffer ends at the first zero byte.\<close>

lemma get_stops_at_zero_byte:
  "get (assign (JSBuffer [CHR ''a'', CHR 0x00, CHR ''b''])) = Some ''a''"
  by (simp add: get_def c_str_def)

text \<open>An accessor that throws ends the process, after the first three arguments were checked.\<close>

lemma CreateSsl_aborts_on_throwing_accessor:
  assumes "key_cert_valid info" and "IsObject (arg info 3)"
    and "heap (arg info 3) ''checkServerIdentity'' = Threw x"
  shows "CreateSsl heap lib w info = (Aborts, w)"
proof -
  from assms(2) have "\<not> IsUndefined (arg info 3)" by (cases "arg info 3") simp_all
  with assms(2,3) have "CreateSsl_verify_options heap w (arg info 3) = Inl Aborts"
    by (simp add: CreateSsl_verify_options_def Get_def)
  with CreateSsl_valid [OF assms(1), of heap lib w] show ?thesis by simp
qed

text \<open>The validation of each call, as conditions on its arguments.\<close>

lemma CreateSsl_completes_iff:
  "completes (fst (CreateSsl heap lib w info)) =
     (key_cert_valid info \<and> options_valid heap (arg info 3))"
proof (cases "key_cert_valid info")
  case False
  from CreateSsl_invalid [OF this, of heap lib w] False show ?thesis by auto
next
  case True
  note eq = CreateSsl_valid [OF True, of heap lib w]
  show ?thesis
  proof (cases "CreateSsl_verify_options heap w (arg info 3)")
    case (Inl stop)
    with eq verify_options_stop [OF Inl] True show ?thesis by simp
  next
    case (Inr r)
    obtain vo w1 where r: "r = (vo, w1)" by (cases r)
    have "options_valid heap (arg info 3)"
      using verify_options_cases [OF Inr [unfolded r]] by (auto simp: options_valid_def)
    with eq Inr r True show ?thesis by simp
  qed
qed

lemma Compose_completes_iff:
  "completes (fst (Compose lib w this info)) =
     (\<exists>self p. Unwrap w this = Some self \<and> wrapped_credentials self = Some p \<and>
        CallCredentials_HasInstance (arg info 0))"
proof
  assume "completes (fst (Compose lib w this info))"
  then show "\<exists>self p. Unwrap w this = Some self \<and> wrapped_credentials self = Some p \<and>
        CallCredentials_HasInstance (arg info 0)"
    by (cases rule: Compose_cases [of lib w this info]) auto
next
  assume "\<exists>self p. Unwrap w this = Some self \<and> wrapped_credentials self = Some p \<and>
        CallCredentials_HasInstance (arg info 0)"
  then show "completes (fst (Compose lib w this info))"
    using Compose_completes by blast
qed

text \<open>
  The native layer calls the bridge on a live registration only: a credential that
  has not been released owns a callback that has not been deleted.
\<close>

lemma native_layer_calls_live_registration:
  assumes inv: "registrations_anchored w"
    and call: "native_verify_peer env w p servername cert = Some r"
  shows "\<exists>u < length (callbacks w). deletes (callbacks w ! u) = 0 \<and>
           r = verify_peer_callback_wrapper env w servername cert u"
proof -
  from call have p: "p < length (natives w)" "\<not> released (natives w ! p)"
    by (auto simp: native_verify_peer_def split: if_splits)
  from call p obtain u where u: "verify_peer_callback_userdata (options (natives w ! p)) = Some u"
    and r: "r = verify_peer_callback_wrapper env w servername cert u"
    by (auto simp: native_verify_peer_def split: option.splits verify_fn.splits)
  from anchoredD1 [OF inv p(1)] u p(2) have "u < length (callbacks w) \<and> deletes (callbacks w ! u) = 0"
    by (auto simp: no_verify_options_def)
  with r show ?thesis by blast
qed

subsection \<open>The claims\<close>



text \<open>
  C2. When exactly one of the second and third argument of \<^verbatim>\<open>createSsl\<close> is supplied,
  the call throws one of the four exceptions \<^verbatim>\<open>createSsl\<close> has for its first three
  arguments, and the state is the one before the call: nothing was asked of the
  library and no callback was allocated. When the arguments have the types the
  operation is specified for (the first a Buffer or absent, the supplied one a
  Buffer), the exception is the Error that asks for both or neither.
\<close>

theorem CreateSsl_key_without_chain:
  assumes "supplied (arg info 1) \<noteq> supplied (arg info 2)"
  shows "\<exists>e. CreateSsl heap lib w info = (Throws e, w) \<and>
           (e = TypeError ''createSsl's first argument must be a Buffer'' \<or>
            e = TypeError ''createSSl's second argument must be a Buffer if provided'' \<or>
            e = TypeError ''createSSl's third argument must be a Buffer if provided'' \<or>
            e = Error ''createSsl's second and third arguments must be provided or omitted together'') \<and>
           ((Buffer_HasInstance (arg info 0) \<or> nullish (arg info 0)) \<and>
            (Buffer_HasInstance (arg info 1) \<or> Buffer_HasInstance (arg info 2))
            \<longrightarrow> e = Error ''createSsl's second and third arguments must be provided or omitted together'')"
  using assms Buffer_supplied [of "arg info 1"] Buffer_supplied [of "arg info 2"]
  by (auto simp: CreateSsl_def Let_def isAssigned_assign supplied_def)

theorem CreateSsl_key_without_chain_witness:
  "supplied (arg [JSNull, JSBuffer ''key''] 1) \<noteq> supplied (arg [JSNull, JSBuffer ''key''] 2) \<and>
   (Buffer_HasInstance (arg [JSNull, JSBuffer ''key''] 0) \<or> nullish (arg [JSNull, JSBuffer ''key''] 0)) \<and>
   (Buffer_HasInstance (arg [JSNull, JSBuffer ''key''] 1) \<or> Buffer_HasInstance (arg [JSNull, JSBuffer ''key''] 2)) \<and>
   CreateSsl plain_heap willing_library init [JSNull, JSBuffer ''key''] =
     (Throws (Error ''createSsl's second and third arguments must be provided or omitted together''), init)"
  using CreateSsl_key_without_chain
    [where info = "[JSNull, JSBuffer ''key'']" and heap = plain_heap and lib = willing_library
       and w = init]
  by (simp add: arg_def supplied_def nullish_def)

text \<open>
  C3. \<^verbatim>\<open>compose\<close> on a handle that wraps the null sentinel, with a call credential as
  argument, throws the TypeError for an insecure credential; the state is the one
  before the call, so the composite builder was not called and no handle was made.
\<close>

theorem Compose_insecure_rejected:
  assumes "Unwrap w this = Some self" and "wrapped_credentials self = None"
    and "CallCredentials_HasInstance (arg info 0)"
  shows "Compose lib w this info = (Throws (TypeError ''Cannot compose insecure credential''), w)"
  using assms Unwrap_HasInstance [OF assms(1)] by (simp add: Compose_def)

theorem Compose_insecure_rejected_witness:
  "Unwrap (snd (CreateInsecure init)) (JSChannelCredentials 0)
     = Some \<lparr>wrapped_credentials = None, destructed = False\<rparr> \<and>
   wrapped_credentials \<lparr>wrapped_credentials = None, destructed = False\<rparr> = None \<and>
   CallCredentials_HasInstance (arg [JSCallCredentials 3] 0) \<and>
   Compose willing_library (snd (CreateInsecure init)) (JSChannelCredentials 0) [JSCallCredentials 3]
     = (Throws (TypeError ''Cannot compose insecure credential''), snd (CreateInsecure init))"
  using Compose_insecure_rejected
    [of "snd (CreateInsecure init)" "JSChannelCredentials 0"
        "\<lparr>wrapped_credentials = None, destructed = False\<rparr>" "[JSCallCredentials 3]" willing_library]
  by (simp add: CreateInsecure_eq init_def arg_def CallCredentials_HasInstance_def)




text \<open>
  C5. A call passes the validation when its arguments meet the conditions the code
  tests: for \<^verbatim>\<open>createSsl\<close>, the first three are Buffers or absent with key and chain
  together, and the fourth is undefined or an object whose \<^verbatim>\<open>checkServerIdentity\<close>
  reads as undefined or as a function; for \<^verbatim>\<open>compose\<close>, the receiver is a live
  handle that is not insecure and the argument is a call credential. These are exactly
  the calls that set a return value. Such a call asks the library once. If the library
  returns no native object, the call returns \<^verbatim>\<open>null\<close>, throws nothing and makes no
  handle; otherwise it returns a new handle, and the handle wraps the native credential
  the library has just built.
\<close>

theorem construction_failure_is_null:
  "(key_cert_valid info \<and> options_valid heap (arg info 3) \<longrightarrow>
      (\<exists>vo w1. CreateSsl_verify_options heap w (arg info 3) = Inr (vo, w1) \<and>
         lib_calls (snd (CreateSsl heap lib w info)) = lib_calls w @
           [Ssl_credentials_create (get (assign (arg info 0))) (key_cert_argument info) vo] \<and>
         (if ssl_create_succeeds lib w1 (get (assign (arg info 0))) (key_cert_argument info) vo
          then fst (CreateSsl heap lib w info) = Returns (JSChannelCredentials (length (handles w))) \<and>
               Unwrap (snd (CreateSsl heap lib w info)) (JSChannelCredentials (length (handles w)))
                 = Some \<lparr>wrapped_credentials = Some (length (natives w)), destructed = False\<rparr> \<and>
               natives (snd (CreateSsl heap lib w info)) = natives w @
                 [\<lparr>kind = Ssl_credentials (get (assign (arg info 0))) (key_cert_argument info),
                   options = vo, released = False\<rparr>]
          else CreateSsl heap lib w info =
                 (Returns JSNull,
                  w1\<lparr>lib_calls := lib_calls w @
                       [Ssl_credentials_create (get (assign (arg info 0))) (key_cert_argument info) vo]\<rparr>) \<and>
               handles (snd (CreateSsl heap lib w info)) = handles w \<and>
               natives (snd (CreateSsl heap lib w info)) = natives w))) \<and>
   (Unwrap w this = Some self \<and> wrapped_credentials self = Some p \<and>
    CallCredentials_HasInstance (arg args 0) \<longrightarrow>
      lib_calls (snd (Compose lib w this args)) = lib_calls w @
        [Composite_channel_credentials_create p (GetWrappedCredentials (arg args 0))] \<and>
      (if composite_create_succeeds lib w p (GetWrappedCredentials (arg args 0))
       then fst (Compose lib w this args) = Returns (JSChannelCredentials (length (handles w))) \<and>
            Unwrap (snd (Compose lib w this args)) (JSChannelCredentials (length (handles w)))
              = Some \<lparr>wrapped_credentials = Some (length (natives w)), destructed = False\<rparr> \<and>
            natives (snd (Compose lib w this args)) = natives w @
              [\<lparr>kind = Composite_credentials p (GetWrappedCredentials (arg args 0)),
                options = no_verify_options, released = False\<rparr>]
       else Compose lib w this args =
              (Returns JSNull,
               w\<lparr>lib_calls := lib_calls w @
                    [Composite_channel_credentials_create p (GetWrappedCredentials (arg args 0))]\<rparr>))) \<and>
   completes (fst (CreateSsl heap lib w info)) =
     (key_cert_valid info \<and> options_valid heap (arg info 3)) \<and>
   completes (fst (Compose lib w this args)) =
     (\<exists>self p. Unwrap w this = Some self \<and> wrapped_credentials self = Some p \<and>
        CallCredentials_HasInstance (arg args 0))"
proof (intro conjI impI)
  assume valid: "key_cert_valid info \<and> options_valid heap (arg info 3)"
  then have kv: "key_cert_valid info" and ov: "options_valid heap (arg info 3)" by simp_all
  from verify_options_valid [OF ov, of w] obtain vo w1
    where vo: "CreateSsl_verify_options heap w (arg info 3) = Inr (vo, w1)" by blast
  note fr = verify_options_frame [OF vo]
  note eq = CreateSsl_valid [OF kv, of heap lib w]
  have "lib_calls (snd (CreateSsl heap lib w info)) = lib_calls w @
           [Ssl_credentials_create (get (assign (arg info 0))) (key_cert_argument info) vo] \<and>
         (if ssl_create_succeeds lib w1 (get (assign (arg info 0))) (key_cert_argument info) vo
          then fst (CreateSsl heap lib w info) = Returns (JSChannelCredentials (length (handles w))) \<and>
               Unwrap (snd (CreateSsl heap lib w info)) (JSChannelCredentials (length (handles w)))
                 = Some \<lparr>wrapped_credentials = Some (length (natives w)), destructed = False\<rparr> \<and>
               natives (snd (CreateSsl heap lib w info)) = natives w @
                 [\<lparr>kind = Ssl_credentials (get (assign (arg info 0))) (key_cert_argument info),
                   options = vo, released = False\<rparr>]
          else CreateSsl heap lib w info =
                 (Returns JSNull,
                  w1\<lparr>lib_calls := lib_calls w @
                       [Ssl_credentials_create (get (assign (arg info 0))) (key_cert_argument info) vo]\<rparr>) \<and>
               handles (snd (CreateSsl heap lib w info)) = handles w \<and>
               natives (snd (CreateSsl heap lib w info)) = natives w)"
    using eq vo fr by simp
  with vo show "\<exists>vo w1. CreateSsl_verify_options heap w (arg info 3) = Inr (vo, w1) \<and>
         lib_calls (snd (CreateSsl heap lib w info)) = lib_calls w @
           [Ssl_credentials_create (get (assign (arg info 0))) (key_cert_argument info) vo] \<and>
         (if ssl_create_succeeds lib w1 (get (assign (arg info 0))) (key_cert_argument info) vo
          then fst (CreateSsl heap lib w info) = Returns (JSChannelCredentials (length (handles w))) \<and>
               Unwrap (snd (CreateSsl heap lib w info)) (JSChannelCredentials (length (handles w)))
                 = Some \<lparr>wrapped_credentials = Some (length (natives w)), destructed = False\<rparr> \<and>
               natives (snd (CreateSsl heap lib w info)) = natives w @
                 [\<lparr>kind = Ssl_credentials (get (assign (arg info 0))) (key_cert_argument info),
                   options = vo, released = False\<rparr>]
          else CreateSsl heap lib w info =
                 (Returns JSNull,
                  w1\<lparr>lib_calls := lib_calls w @
                       [Ssl_credentials_create (get (assign (arg info 0))) (key_cert_argument info) vo]\<rparr>) \<and>
               handles (snd (CreateSsl heap lib w info)) = handles w \<and>
               natives (snd (CreateSsl heap lib w info)) = natives w)"
    by blast
next
  assume valid: "Unwrap w this = Some self \<and> wrapped_credentials self = Some p \<and>
    CallCredentials_HasInstance (arg args 0)"
  with Unwrap_HasInstance [of w this self]
  have c: "Compose lib w this args =
      (if composite_create_succeeds lib w p (GetWrappedCredentials (arg args 0))
       then (Returns (JSChannelCredentials (length (handles w))),
          w\<lparr>lib_calls := lib_calls w @
               [Composite_channel_credentials_create p (GetWrappedCredentials (arg args 0))],
            natives := natives w @
               [\<lparr>kind = Composite_credentials p (GetWrappedCredentials (arg args 0)),
                 options = no_verify_options, released = False\<rparr>],
            handles := handles w @
               [\<lparr>wrapped_credentials = Some (length (natives w)), destructed = False\<rparr>]\<rparr>)
       else (Returns JSNull,
               w\<lparr>lib_calls := lib_calls w @
                    [Composite_channel_credentials_create p (GetWrappedCredentials (arg args 0))]\<rparr>))"
    by (simp add: Compose_def grpc_composite_channel_credentials_create_def Let_def WrapStruct_eq)
  show "lib_calls (snd (Compose lib w this args)) = lib_calls w @
        [Composite_channel_credentials_create p (GetWrappedCredentials (arg args 0))]"
    unfolding c by simp
  show "if composite_create_succeeds lib w p (GetWrappedCredentials (arg args 0))
       then fst (Compose lib w this args) = Returns (JSChannelCredentials (length (handles w))) \<and>
            Unwrap (snd (Compose lib w this args)) (JSChannelCredentials (length (handles w)))
              = Some \<lparr>wrapped_credentials = Some (length (natives w)), destructed = False\<rparr> \<and>
            natives (snd (Compose lib w this args)) = natives w @
              [\<lparr>kind = Composite_credentials p (GetWrappedCredentials (arg args 0)),
                options = no_verify_options, released = False\<rparr>]
       else Compose lib w this args =
              (Returns JSNull,
               w\<lparr>lib_calls := lib_calls w @
                    [Composite_channel_credentials_create p (GetWrappedCredentials (arg args 0))]\<rparr>)"
    unfolding c by simp
next
  show "completes (fst (CreateSsl heap lib w info)) =
     (key_cert_valid info \<and> options_valid heap (arg info 3))"
    by (rule CreateSsl_completes_iff)
next
  show "completes (fst (Compose lib w this args)) =
     (\<exists>self p. Unwrap w this = Some self \<and> wrapped_credentials self = Some p \<and>
        CallCredentials_HasInstance (arg args 0))"
    by (rule Compose_completes_iff)
qed

theorem construction_failure_is_null_witness:
  "key_cert_valid [JSBuffer ''roots''] \<and>
   options_valid plain_heap (arg [JSBuffer ''roots''] 3) \<and>
   CreateSsl plain_heap refusing_library init [JSBuffer ''roots'']
     = (Returns JSNull,
        init\<lparr>lib_calls := [Ssl_credentials_create (Some ''roots'') None no_verify_options]\<rparr>) \<and>
   fst (CreateSsl plain_heap willing_library init [JSBuffer ''roots''])
     = Returns (JSChannelCredentials 0) \<and>
   Unwrap (snd (CreateSsl plain_heap willing_library init [])) (JSChannelCredentials 0)
     = Some \<lparr>wrapped_credentials = Some 0, destructed = False\<rparr> \<and>
   wrapped_credentials \<lparr>wrapped_credentials = Some 0, destructed = False\<rparr> = Some 0 \<and>
   CallCredentials_HasInstance (arg [JSCallCredentials 3] 0) \<and>
   Compose refusing_library (snd (CreateSsl plain_heap willing_library init []))
       (JSChannelCredentials 0) [JSCallCredentials 3]
     = (Returns JSNull,
        (snd (CreateSsl plain_heap willing_library init []))
          \<lparr>lib_calls := lib_calls (snd (CreateSsl plain_heap willing_library init [])) @
             [Composite_channel_credentials_create 0 3]\<rparr>) \<and>
   fst (Compose willing_library (snd (CreateSsl plain_heap willing_library init []))
          (JSChannelCredentials 0) [JSCallCredentials 3]) = Returns (JSChannelCredentials 1)"
  using construction_failure_is_null
    [where heap = plain_heap and lib = refusing_library and w = init
       and info = "[JSBuffer ''roots'']" and this = "JSChannelCredentials 0"
       and args = "[JSCallCredentials 3]"
       and self = "\<lparr>wrapped_credentials = Some 0, destructed = False\<rparr>" and p = 0]
    construction_failure_is_null
    [where heap = plain_heap and lib = willing_library and w = init
       and info = "[JSBuffer ''roots'']" and this = "JSChannelCredentials 0"
       and args = "[JSCallCredentials 3]"
       and self = "\<lparr>wrapped_credentials = Some 0, destructed = False\<rparr>" and p = 0]
    construction_failure_is_null
    [where heap = plain_heap and lib = refusing_library
       and w = "snd (CreateSsl plain_heap willing_library init [])"
       and info = "[]" and this = "JSChannelCredentials 0" and args = "[JSCallCredentials 3]"
       and self = "\<lparr>wrapped_credentials = Some 0, destructed = False\<rparr>" and p = 0]
    construction_failure_is_null
    [where heap = plain_heap and lib = willing_library
       and w = "snd (CreateSsl plain_heap willing_library init [])"
       and info = "[]" and this = "JSChannelCredentials 0" and args = "[JSCallCredentials 3]"
       and self = "\<lparr>wrapped_credentials = Some 0, destructed = False\<rparr>" and p = 0]
  by (simp add: evaluation)

text \<open>
  C6. Let the first three arguments of a call of \<^verbatim>\<open>createSsl\<close> pass their checks
  (Buffers or absent, key and chain together). If the fourth argument is an object
  whose \<^verbatim>\<open>checkServerIdentity\<close> reads as a function, one new callback binds that
  function, and the request to the library carries the wrapper, the callback as user
  data and the destruct routine. If the library builds the credential, the call
  returns a handle, the credential keeps these options, a peer check on it runs the
  function through the wrapper, and releasing the credential deletes the callback
  once; if the library refuses, the call returns \<^verbatim>\<open>null\<close>. Whatever the arguments,
  a call with no function under \<^verbatim>\<open>checkServerIdentity\<close> makes no callback, and when
  the fourth argument or the property is undefined the request carries no
  verification options. From then on, whatever the program does, every callback has
  been deleted once if the credential that owns it has been released, and never
  otherwise.
\<close>

theorem CreateSsl_registers_verifier:
  "(key_cert_valid info \<and> IsObject (arg info 3) \<and>
    heap (arg info 3) ''checkServerIdentity'' = Returned (JSFunction f) \<longrightarrow>
       callbacks (snd (CreateSsl heap lib w info)) = callbacks w @ [\<lparr>fn = f, deletes = 0\<rparr>] \<and>
       lib_calls (snd (CreateSsl heap lib w info)) = lib_calls w @
         [Ssl_credentials_create (get (assign (arg info 0))) (key_cert_argument info)
            (installed_options (length (callbacks w)))] \<and>
       (if ssl_create_succeeds lib (w\<lparr>callbacks := callbacks w @ [\<lparr>fn = f, deletes = 0\<rparr>]\<rparr>)
             (get (assign (arg info 0))) (key_cert_argument info)
             (installed_options (length (callbacks w)))
        then fst (CreateSsl heap lib w info) = Returns (JSChannelCredentials (length (handles w))) \<and>
             natives (snd (CreateSsl heap lib w info)) = natives w @
               [\<lparr>kind = Ssl_credentials (get (assign (arg info 0))) (key_cert_argument info),
                 options = installed_options (length (callbacks w)), released = False\<rparr>] \<and>
             native_verify_peer env (snd (CreateSsl heap lib w info)) (length (natives w))
                 servername cert
               = Some (case env f [string_or_null servername, string_or_null cert] of
                         Returned v \<Rightarrow> (Signal (if IsNativeError v then 1 else 0), None)
                       | Threw x \<Rightarrow> (Signal 2, None)
                       | Never_returns \<Rightarrow> (Stalled, None)) \<and>
             callbacks (grpc_channel_credentials_release lib' (Some (length (natives w)))
                          (snd (CreateSsl heap lib w info)))
               = callbacks w @ [\<lparr>fn = f, deletes = 1\<rparr>]
        else fst (CreateSsl heap lib w info) = Returns JSNull \<and>
             natives (snd (CreateSsl heap lib w info)) = natives w)) \<and>
   (IsUndefined (arg info 3) \<or> \<not> returns_function (heap (arg info 3) ''checkServerIdentity'')
      \<longrightarrow> callbacks (snd (CreateSsl heap lib w info)) = callbacks w) \<and>
   (key_cert_valid info \<and>
    (IsUndefined (arg info 3) \<or>
     IsObject (arg info 3) \<and> heap (arg info 3) ''checkServerIdentity'' = Returned JSUndefined)
      \<longrightarrow> lib_calls (snd (CreateSsl heap lib w info)) = lib_calls w @
            [Ssl_credentials_create (get (assign (arg info 0))) (key_cert_argument info)
               no_verify_options]) \<and>
   (registrations_anchored w
      \<longrightarrow> registrations_anchored (run heap' lib' ops (snd (CreateSsl heap lib w info))))"
proof -
  let ?w' = "snd (CreateSsl heap lib w info)"
  let ?roots = "get (assign (arg info 0))"
  have anch: "registrations_anchored (run heap' lib' ops ?w')" if "registrations_anchored w"
  proof -
    from step_anchored [OF that, of heap lib "Call_CreateSsl info"]
    have "registrations_anchored ?w'" by simp
    from run_anchored [OF this] show ?thesis .
  qed
  have none: "callbacks ?w' = callbacks w"
    if no: "IsUndefined (arg info 3) \<or> \<not> returns_function (heap (arg info 3) ''checkServerIdentity'')"
  proof (cases rule: CreateSsl_cases [of heap lib w info])
    case (Stops stop)
    then show ?thesis by simp
  next
    case (Refused vo w1)
    from verify_options_cases [OF Refused(1)] no have "w1 = w" by auto
    with Refused(3) show ?thesis by simp
  next
    case (Built vo w1)
    from verify_options_cases [OF Built(1)] no have "w1 = w" by auto
    with Built(3) show ?thesis by simp
  qed
  have plain: "lib_calls ?w' = lib_calls w @
            [Ssl_credentials_create ?roots (key_cert_argument info) no_verify_options]"
    if a: "key_cert_valid info \<and>
      (IsUndefined (arg info 3) \<or>
       IsObject (arg info 3) \<and> heap (arg info 3) ''checkServerIdentity'' = Returned JSUndefined)"
  proof -
    from a have vo: "CreateSsl_verify_options heap w (arg info 3) = Inr (no_verify_options, w)"
      by (auto simp: CreateSsl_verify_options_def Get_def)
    from a CreateSsl_valid [of info heap lib w] vo show ?thesis by simp
  qed
  have some: "callbacks ?w' = callbacks w @ [\<lparr>fn = f, deletes = 0\<rparr>] \<and>
       lib_calls ?w' = lib_calls w @
         [Ssl_credentials_create ?roots (key_cert_argument info)
            (installed_options (length (callbacks w)))] \<and>
       (if ssl_create_succeeds lib (w\<lparr>callbacks := callbacks w @ [\<lparr>fn = f, deletes = 0\<rparr>]\<rparr>)
             ?roots (key_cert_argument info) (installed_options (length (callbacks w)))
        then fst (CreateSsl heap lib w info) = Returns (JSChannelCredentials (length (handles w))) \<and>
             natives ?w' = natives w @
               [\<lparr>kind = Ssl_credentials ?roots (key_cert_argument info),
                 options = installed_options (length (callbacks w)), released = False\<rparr>] \<and>
             native_verify_peer env ?w' (length (natives w)) servername cert
               = Some (case env f [string_or_null servername, string_or_null cert] of
                         Returned v \<Rightarrow> (Signal (if IsNativeError v then 1 else 0), None)
                       | Threw x \<Rightarrow> (Signal 2, None)
                       | Never_returns \<Rightarrow> (Stalled, None)) \<and>
             callbacks (grpc_channel_credentials_release lib' (Some (length (natives w))) ?w')
               = callbacks w @ [\<lparr>fn = f, deletes = 1\<rparr>]
        else fst (CreateSsl heap lib w info) = Returns JSNull \<and> natives ?w' = natives w)"
    if a: "key_cert_valid info \<and> IsObject (arg info 3) \<and>
      heap (arg info 3) ''checkServerIdentity'' = Returned (JSFunction f)"
  proof -
    let ?w1 = "w\<lparr>callbacks := callbacks w @ [\<lparr>fn = f, deletes = 0\<rparr>]\<rparr>"
    let ?vo = "installed_options (length (callbacks w))"
    from a have "\<not> IsUndefined (arg info 3)" by (cases "arg info 3") simp_all
    with a have vo: "CreateSsl_verify_options heap w (arg info 3) = Inr (?vo, ?w1)"
      by (simp add: CreateSsl_verify_options_def Get_def installed_options_def)
    from a CreateSsl_valid [of info heap lib w] vo
    have eq: "CreateSsl heap lib w info =
       (if ssl_create_succeeds lib ?w1 ?roots (key_cert_argument info) ?vo
          then (Returns (JSChannelCredentials (length (handles w))),
                ?w1\<lparr>lib_calls := lib_calls w @
                     [Ssl_credentials_create ?roots (key_cert_argument info) ?vo],
                   natives := natives w @
                     [\<lparr>kind = Ssl_credentials ?roots (key_cert_argument info),
                       options = ?vo, released = False\<rparr>],
                   handles := handles w @
                     [\<lparr>wrapped_credentials = Some (length (natives w)), destructed = False\<rparr>]\<rparr>)
          else (Returns JSNull,
                ?w1\<lparr>lib_calls := lib_calls w @
                     [Ssl_credentials_create ?roots (key_cert_argument info) ?vo]\<rparr>))"
      by simp
    have cb: "callbacks ?w' = callbacks w @ [\<lparr>fn = f, deletes = 0\<rparr>]"
      unfolding eq by simp
    have lc: "lib_calls ?w' = lib_calls w @
         [Ssl_credentials_create ?roots (key_cert_argument info) ?vo]"
      unfolding eq by simp
    show ?thesis
    proof (cases "ssl_create_succeeds lib ?w1 ?roots (key_cert_argument info) ?vo")
      case False
      with eq cb lc show ?thesis by simp
    next
      case True
      with eq have r: "fst (CreateSsl heap lib w info) = Returns (JSChannelCredentials (length (handles w)))"
        and n: "natives ?w' = natives w @
               [\<lparr>kind = Ssl_credentials ?roots (key_cert_argument info),
                 options = ?vo, released = False\<rparr>]"
        by simp_all
      have v: "native_verify_peer env ?w' (length (natives w)) servername cert
               = Some (case env f [string_or_null servername, string_or_null cert] of
                         Returned v \<Rightarrow> (Signal (if IsNativeError v then 1 else 0), None)
                       | Threw x \<Rightarrow> (Signal 2, None)
                       | Never_returns \<Rightarrow> (Stalled, None))"
        by (simp add: native_verify_peer_def n cb installed_options_def
              verify_peer_callback_wrapper_def Nan_Call_def TryCatch_leave_def
              split: js_outcome.splits)
      from True r n v cb lc release_new_registered [OF n cb, of lib'] show ?thesis by simp
    qed
  qed
  from some none plain anch show ?thesis by blast
qed

theorem CreateSsl_registers_verifier_witness:
  "key_cert_valid [JSNull, JSNull, JSNull, JSObject 1] \<and>
   IsObject (arg [JSNull, JSNull, JSNull, JSObject 1] 3) \<and>
   verifier_heap (arg [JSNull, JSNull, JSNull, JSObject 1] 3) ''checkServerIdentity''
     = Returned (JSFunction 5) \<and>
   registrations_anchored init \<and>
   callbacks (snd (CreateSsl verifier_heap willing_library init [JSNull, JSNull, JSNull, JSObject 1]))
     = [\<lparr>fn = 5, deletes = 0\<rparr>] \<and>
   lib_calls (snd (CreateSsl verifier_heap willing_library init [JSNull, JSNull, JSNull, JSObject 1]))
     = [Ssl_credentials_create None None (installed_options 0)] \<and>
   native_verify_peer (\<lambda>f argv. if f = 5 then Returned (JSNativeError ''bad name'') else Never_returns)
     (snd (CreateSsl verifier_heap willing_library init [JSNull, JSNull, JSNull, JSObject 1]))
     0 (Some ''host'') (Some ''pem'') = Some (Signal 1, None) \<and>
   callbacks (run plain_heap willing_library [Collect 0]
      (snd (CreateSsl verifier_heap willing_library init [JSNull, JSNull, JSNull, JSObject 1])))
     = [\<lparr>fn = 5, deletes = 1\<rparr>] \<and>
   registrations_anchored (run plain_heap willing_library [Collect 0]
      (snd (CreateSsl verifier_heap willing_library init [JSNull, JSNull, JSNull, JSObject 1]))) \<and>
   \<not> returns_function (plain_heap (arg [JSNull, JSNull, JSNull, JSObject 1] 3) ''checkServerIdentity'') \<and>
   callbacks (snd (CreateSsl plain_heap willing_library init [JSNull, JSNull, JSNull, JSObject 1]))
     = [] \<and>
   lib_calls (snd (CreateSsl plain_heap willing_library init [JSNull, JSNull, JSNull, JSObject 1]))
     = [Ssl_credentials_create None None no_verify_options]"
  using CreateSsl_registers_verifier
    [where heap = verifier_heap and lib = willing_library and w = init
       and info = "[JSNull, JSNull, JSNull, JSObject 1]"
       and f = 5 and heap' = plain_heap and lib' = willing_library and ops = "[Collect 0]"
       and env = "\<lambda>f argv. if f = 5 then Returned (JSNativeError ''bad name'') else Never_returns"
       and servername = "Some ''host''" and cert = "Some ''pem''"]
    CreateSsl_registers_verifier
    [where heap = plain_heap and lib = willing_library and w = init
       and info = "[JSNull, JSNull, JSNull, JSObject 1]"
       and f = 5 and heap' = plain_heap and lib' = willing_library and ops = "[Collect 0]"
       and env = "\<lambda>f argv. if f = 5 then Returned (JSNativeError ''bad name'') else Never_returns"
       and servername = "Some ''host''" and cert = "Some ''pem''"]
    init_anchored
  by (simp add: evaluation)

text \<open>
  C7. \<^verbatim>\<open>createInsecure\<close> returns a handle, and the handle wraps the null sentinel.
  Whatever the program does next, while the handle is alive every \<^verbatim>\<open>compose\<close> on
  it throws and leaves the state as it was; with a call credential as argument the
  exception is the TypeError for an insecure credential.
\<close>

theorem CreateInsecure_never_fails:
  "fst (CreateInsecure w) = Returns (JSChannelCredentials (length (handles w))) \<and>
   Unwrap (snd (CreateInsecure w)) (JSChannelCredentials (length (handles w)))
     = Some \<lparr>wrapped_credentials = None, destructed = False\<rparr> \<and>
   (Unwrap (run heap lib ops (snd (CreateInsecure w))) (JSChannelCredentials (length (handles w))) \<noteq> None
      \<longrightarrow> (\<exists>e. Compose lib' (run heap lib ops (snd (CreateInsecure w)))
                   (JSChannelCredentials (length (handles w))) info
                 = (Throws e, run heap lib ops (snd (CreateInsecure w)))) \<and>
          (CallCredentials_HasInstance (arg info 0)
             \<longrightarrow> Compose lib' (run heap lib ops (snd (CreateInsecure w)))
                   (JSChannelCredentials (length (handles w))) info
                 = (Throws (TypeError ''Cannot compose insecure credential''),
                    run heap lib ops (snd (CreateInsecure w)))))"
proof -
  let ?h = "length (handles w)"
  let ?w1 = "snd (CreateInsecure w)"
  let ?w2 = "run heap lib ops ?w1"
  have 1: "fst (CreateInsecure w) = Returns (JSChannelCredentials ?h)"
    by (simp add: CreateInsecure_eq)
  have 2: "Unwrap ?w1 (JSChannelCredentials ?h) = Some \<lparr>wrapped_credentials = None, destructed = False\<rparr>"
    by (simp add: CreateInsecure_eq)
  have h: "?h < length (handles ?w1)" by (simp add: CreateInsecure_eq)
  have "wrapped_credentials (handles ?w1 ! ?h) = None" by (simp add: CreateInsecure_eq)
  with run_handles_frame [OF h, of heap lib ops]
  have wr: "wrapped_credentials (handles ?w2 ! ?h) = None" by simp
  have 3: "(\<exists>e. Compose lib' ?w2 (JSChannelCredentials ?h) info = (Throws e, ?w2)) \<and>
          (CallCredentials_HasInstance (arg info 0)
             \<longrightarrow> Compose lib' ?w2 (JSChannelCredentials ?h) info
                 = (Throws (TypeError ''Cannot compose insecure credential''), ?w2))"
    if "Unwrap ?w2 (JSChannelCredentials ?h) \<noteq> None"
  proof -
    from that have "Unwrap ?w2 (JSChannelCredentials ?h) = Some (handles ?w2 ! ?h)"
      by (simp split: if_splits)
    with wr show ?thesis
      by (simp add: Compose_def ChannelCredentials_HasInstance_def)
  qed
  from 1 2 3 show ?thesis by blast
qed


theorem CreateInsecure_never_fails_witness:
  "Unwrap (run plain_heap willing_library [Call_CreateSsl []] (snd (CreateInsecure init))) (JSChannelCredentials 0)
     \<noteq> None \<and>
   CallCredentials_HasInstance (arg [JSCallCredentials 3] 0) \<and>
   Compose refusing_library (run plain_heap willing_library [Call_CreateSsl []] (snd (CreateInsecure init)))
       (JSChannelCredentials 0) [JSCallCredentials 3]
     = (Throws (TypeError ''Cannot compose insecure credential''),
        run plain_heap willing_library [Call_CreateSsl []] (snd (CreateInsecure init)))"
  using CreateInsecure_never_fails
    [where w = init and lib = willing_library and ops = "[Call_CreateSsl []]"
       and info = "[JSCallCredentials 3]" and lib' = refusing_library]
  by (simp add: evaluation)

text \<open>
  C8. A \<^verbatim>\<open>compose\<close> that returns a handle returns a new one: it is neither the
  receiver nor the argument, and it wraps a native credential that did not exist
  before. The handles and native credentials that existed are as they were, no
  callback changes, nothing is released, and the receiver unwraps to what it did
  before, so composing the receiver again or composing the new handle passes the
  validation. Exclusive ownership of the native credentials carries over.
\<close>

theorem Compose_leaves_inputs:
  assumes call: "Compose lib w this info = (Returns v, w')" and handle: "v \<noteq> JSNull"
  shows "v = JSChannelCredentials (length (handles w)) \<and> v \<noteq> this \<and> v \<noteq> arg info 0 \<and>
         Unwrap w' v = Some \<lparr>wrapped_credentials = Some (length (natives w)), destructed = False\<rparr> \<and>
         handles w' = handles w @
           [\<lparr>wrapped_credentials = Some (length (natives w)), destructed = False\<rparr>] \<and>
         take (length (natives w)) (natives w') = natives w \<and>
         callbacks w' = callbacks w \<and> fault w' = fault w \<and>
         release_args (lib_calls w') = release_args (lib_calls w) \<and>
         Unwrap w' this = Unwrap w this \<and>
         completes (fst (Compose lib' w' this info)) \<and>
         completes (fst (Compose lib' w' v info)) \<and>
         (handles_own w \<longrightarrow> handles_own w')"
proof (cases rule: Compose_cases [of lib w this info])
  case (Throw e)
  with call show ?thesis by simp
next
  case Dangle
  with call show ?thesis by simp
next
  case (Refused self p)
  with call handle show ?thesis by simp
next
  case (Built self p)
  from Built(5) call have v: "v = JSChannelCredentials (length (handles w))"
    and w': "w' = w\<lparr>lib_calls := lib_calls w @
               [Composite_channel_credentials_create p (GetWrappedCredentials (arg info 0))],
            natives := natives w @
               [\<lparr>kind = Composite_credentials p (GetWrappedCredentials (arg info 0)),
                 options = no_verify_options, released = False\<rparr>],
            handles := handles w @
               [\<lparr>wrapped_credentials = Some (length (natives w)), destructed = False\<rparr>]\<rparr>"
    by simp_all
  from Built(1) obtain h where rcv: "this = JSChannelCredentials h"
    and h: "h < length (handles w)" "\<not> destructed (handles w ! h)" "self = handles w ! h"
    by (cases this) (auto split: if_splits)
  have 1: "v \<noteq> this" using v rcv h(1) by simp
  have 2: "v \<noteq> arg info 0" using v Built(3)
    by (cases "arg info 0") (simp_all add: CallCredentials_HasInstance_def)
  have 3: "Unwrap w' v = Some \<lparr>wrapped_credentials = Some (length (natives w)), destructed = False\<rparr>"
    unfolding v w' by simp
  have 4: "Unwrap w' this = Unwrap w this"
    unfolding rcv w' using h by (simp add: nth_append)
  from 4 Built(1) have u: "Unwrap w' this = Some self" by simp
  from Compose_completes [OF u Built(2,3)]
  have 5: "completes (fst (Compose lib' w' this info))" .
  from Compose_completes [OF 3 _ Built(3), of "length (natives w)" lib']
  have 6: "completes (fst (Compose lib' w' v info))" by simp
  have 7: "handles_own w'" if "handles_own w"
  proof -
    from step_own [OF that, where op = "Call_Compose this info" and lib = lib and heap = heap] call show ?thesis by simp
  qed
  have 8: "release_args (lib_calls w') = release_args (lib_calls w)"
    unfolding w' by (simp add: release_args_append)
  from v 1 2 3 4 5 6 7 8 show ?thesis unfolding w' by simp
qed

theorem Compose_leaves_inputs_witness:
  "Compose willing_library (snd (CreateSsl plain_heap willing_library init []))
       (JSChannelCredentials 0) [JSCallCredentials 3]
     = (Returns (JSChannelCredentials 1),
        snd (Compose willing_library (snd (CreateSsl plain_heap willing_library init []))
               (JSChannelCredentials 0) [JSCallCredentials 3])) \<and>
   JSChannelCredentials 1 \<noteq> JSNull \<and>
   handles_own (snd (CreateSsl plain_heap willing_library init [])) \<and>
   Unwrap (snd (Compose willing_library (snd (CreateSsl plain_heap willing_library init []))
                  (JSChannelCredentials 0) [JSCallCredentials 3])) (JSChannelCredentials 0)
     = Some \<lparr>wrapped_credentials = Some 0, destructed = False\<rparr> \<and>
   completes (fst (Compose refusing_library
      (snd (Compose willing_library (snd (CreateSsl plain_heap willing_library init []))
              (JSChannelCredentials 0) [JSCallCredentials 3]))
      (JSChannelCredentials 0) [JSCallCredentials 3])) \<and>
   handles_own (snd (Compose willing_library (snd (CreateSsl plain_heap willing_library init []))
                  (JSChannelCredentials 0) [JSCallCredentials 3]))"
proof -
  have c: "Compose willing_library (snd (CreateSsl plain_heap willing_library init []))
       (JSChannelCredentials 0) [JSCallCredentials 3]
     = (Returns (JSChannelCredentials 1),
        snd (Compose willing_library (snd (CreateSsl plain_heap willing_library init []))
               (JSChannelCredentials 0) [JSCallCredentials 3]))"
    by (simp add: evaluation)
  have n: "JSChannelCredentials 1 \<noteq> JSNull" by simp
  have o: "handles_own (snd (CreateSsl plain_heap willing_library init []))"
    using step_own [OF init_own, where op = "Call_CreateSsl []" and lib = willing_library and heap = plain_heap]
    by simp
  from Compose_leaves_inputs [OF c n, of refusing_library] c n o show ?thesis
    by (simp add: evaluation)
qed

text \<open>
  C9. \<^verbatim>\<open>compose\<close> throws a TypeError and leaves the state as it was when the
  receiver is not a \<^verbatim>\<open>ChannelCredentials\<close>, and when it is one but the first
  argument is not a \<^verbatim>\<open>CallCredentials\<close>; the wrapped pointer is not looked at, so an
  insecure receiver gets the TypeError for the argument. It calls the library only
  when both tests pass and the receiver wraps a pointer that is not null, and then it
  calls the composite builder, once, on the two wrapped pointers.
\<close>

theorem Compose_type_checks_first:
  "(\<not> ChannelCredentials_HasInstance this
      \<longrightarrow> Compose lib w this info =
            (Throws (TypeError ''compose can only be called on ChannelCredentials objects''), w)) \<and>
   (ChannelCredentials_HasInstance this \<and> \<not> CallCredentials_HasInstance (arg info 0)
      \<longrightarrow> Compose lib w this info =
            (Throws (TypeError ''compose's first argument must be a CallCredentials object''), w)) \<and>
   (lib_calls (snd (Compose lib w this info)) \<noteq> lib_calls w
      \<longrightarrow> ChannelCredentials_HasInstance this \<and> CallCredentials_HasInstance (arg info 0) \<and>
          (\<exists>self p. Unwrap w this = Some self \<and> wrapped_credentials self = Some p \<and>
             lib_calls (snd (Compose lib w this info)) =
               lib_calls w @ [Composite_channel_credentials_create p (GetWrappedCredentials (arg info 0))]))"
  by (auto simp: Compose_def grpc_composite_channel_credentials_create_def Let_def WrapStruct_eq
           split: option.splits)

theorem Compose_type_checks_first_witness:
  "\<not> ChannelCredentials_HasInstance (JSNumber 1) \<and>
   Compose willing_library init (JSNumber 1) [JSCallCredentials 3]
     = (Throws (TypeError ''compose can only be called on ChannelCredentials objects''), init) \<and>
   ChannelCredentials_HasInstance (JSChannelCredentials 0) \<and>
   \<not> CallCredentials_HasInstance (arg [JSString ''token''] 0) \<and>
   Compose willing_library (snd (CreateInsecure init)) (JSChannelCredentials 0) [JSString ''token'']
     = (Throws (TypeError ''compose's first argument must be a CallCredentials object''),
        snd (CreateInsecure init)) \<and>
   lib_calls (snd (Compose willing_library (snd (CreateSsl plain_heap willing_library init []))
                     (JSChannelCredentials 0) [JSCallCredentials 3]))
     \<noteq> lib_calls (snd (CreateSsl plain_heap willing_library init [])) \<and>
   CallCredentials_HasInstance (arg [JSCallCredentials 3] 0) \<and>
   lib_calls (snd (Compose willing_library (snd (CreateSsl plain_heap willing_library init []))
                     (JSChannelCredentials 0) [JSCallCredentials 3]))
     = lib_calls (snd (CreateSsl plain_heap willing_library init [])) @ [Composite_channel_credentials_create 0 3]"
  using Compose_type_checks_first [of "JSNumber 1" willing_library init "[JSCallCredentials 3]"]
    Compose_type_checks_first [of "JSChannelCredentials 0" willing_library "snd (CreateInsecure init)"
      "[JSString ''token'']"]
    Compose_type_checks_first [of "JSChannelCredentials 0" willing_library
      "snd (CreateSsl plain_heap willing_library init [])" "[JSCallCredentials 3]"]
  by (simp add: evaluation)

text \<open>
  C10. A direct call of the constructor that is not a construct call, or whose first
  argument is not an External, throws the TypeError of the source and creates no
  handle: the state is the one before the call.
\<close>

theorem New_rejects_direct_calls:
  "\<not> IsConstructCall \<or> \<not> IsExternal (arg info 0) \<Longrightarrow>
     New w IsConstructCall info = (Throws (TypeError only_provided), w)"
  by (cases "arg info 0") (auto simp: New_def)

theorem New_rejects_direct_calls_witness:
  "\<not> IsExternal (arg [JSNumber 7] 0) \<and>
   New init True [JSNumber 7] = (Throws (TypeError only_provided), init) \<and>
   New init False [JSExternal None] = (Throws (TypeError only_provided), init)"
  using New_rejects_direct_calls [of True "[JSNumber 7]" init]
    New_rejects_direct_calls [of False "[JSExternal None]" init]
  by (simp add: arg_def)

end
